theory Spec2Isabelle
  imports Main "HOL-Library.Word" "HOL-Library.Multiset"
begin

section \<open>Result type (AutoConnectError.h)\<close>

datatype ACError =
    SUCCESS
  | WIFI_CONNECT_FAILED
  | WIFI_TIMEOUT
  | WIFI_CREDENTIALS_INVALID
  | JSON_PARSE_ERROR
  | JSON_BUFFER_OVERFLOW
  | FILESYSTEM_ERROR
  | FILESYSTEM_NOT_MOUNTED
  | FILE_NOT_FOUND
  | FILE_READ_ERROR
  | FILE_WRITE_ERROR
  | MEMORY_ALLOCATION_FAILED
  | MEMORY_INSUFFICIENT
  | TIMEOUT_EXCEEDED
  | INVALID_PARAMETER
  | INVALID_STATE
  | PORTAL_START_FAILED
  | WEBSERVER_ERROR
  | DNS_SERVER_ERROR
  | CREDENTIAL_STORE_ERROR
  | CREDENTIAL_LOAD_ERROR
  | UNKNOWN_ERROR

text \<open>
  \<^verbatim>\<open>struct ACResult { ACError error; String message; }\<close>.  The constructor's default
  message is the empty string; \<^verbatim>\<open>operator bool\<close> and \<^verbatim>\<open>isSuccess\<close> test for
  \<^verbatim>\<open>error == SUCCESS\<close>.
\<close>

datatype ACResult = ACResult (error: ACError) (message: string)

definition isSuccess :: "ACResult \<Rightarrow> bool" where
  "isSuccess r \<longleftrightarrow> error r = SUCCESS"

definition isError :: "ACResult \<Rightarrow> bool" where
  "isError r \<longleftrightarrow> error r \<noteq> SUCCESS"

section \<open>Machine types and C strings\<close>

text \<open>
  \<^verbatim>\<open>unsigned long\<close>, \<^verbatim>\<open>uint32_t\<close> and \<^verbatim>\<open>unsigned\<close> are 32 bits wide on the
  ESP8266 and ESP32 targets of the library; arithmetic on them wraps around.
  An Arduino \<^verbatim>\<open>String\<close> is a \<open>string\<close>; its \<^verbatim>\<open>length()\<close> is the list length.
\<close>

type_synonym ulong = "32 word"
type_synonym u32 = "32 word"
type_synonym u8 = "8 word"
type_synonym i32 = "32 word"
type_synonym IPAddress = "32 word"

definition NUL :: char where
  "NUL = CHR 0x00"

text \<open>The C string that starts at the first byte of a buffer: the bytes before the first NUL.\<close>

definition cstring :: "char list \<Rightarrow> string" where
  "cstring buf = takeWhile (\<lambda>c. c \<noteq> NUL) buf"

text \<open>
  \<^verbatim>\<open>strncpy(dest, src, n)\<close>: copies the C string \<open>src\<close>, at most \<open>n\<close> bytes of it, and
  pads with NUL up to \<open>n\<close> bytes; the rest of \<open>dest\<close> is kept.  Every call in the
  source has \<open>n\<close> below the size of \<open>dest\<close>.
\<close>

definition strncpy :: "char list \<Rightarrow> string \<Rightarrow> nat \<Rightarrow> char list" where
  "strncpy dest src n =
     (let body = take n (cstring src)
      in body @ replicate (n - length body) NUL @ drop n dest)"

text \<open>\<^verbatim>\<open>strcmp\<close>: zero exactly for equal C strings, otherwise the sign of the first difference.\<close>

fun strcmp :: "string \<Rightarrow> string \<Rightarrow> int" where
  "strcmp [] [] = 0"
| "strcmp [] (y # ys) = - 1"
| "strcmp (x # xs) [] = 1"
| "strcmp (x # xs) (y # ys) =
     (if x = y then strcmp xs ys
      else if (of_char x :: nat) < of_char y then - 1 else 1)"

text \<open>Decimal printing of an unsigned number (\<^verbatim>\<open>%u\<close>, \<^verbatim>\<open>String(n)\<close>).\<close>

definition digit_char :: "nat \<Rightarrow> char" where
  "digit_char d = ''0123456789'' ! d"

fun decimal :: "nat \<Rightarrow> string" where
  "decimal n = (if n < 10 then [digit_char n] else decimal (n div 10) @ [digit_char (n mod 10)])"

declare decimal.simps [simp del]

section \<open>Validator (namespace InputSanitizer, AutoConnectRAII.h)\<close>

definition isValidSSID :: "string \<Rightarrow> bool" where
  "isValidSSID ssid \<longleftrightarrow> length ssid > 0 \<and> length ssid \<le> 32"

definition isValidPassword :: "string \<Rightarrow> bool" where
  "isValidPassword password \<longleftrightarrow>
     length password = 0 \<or> (length password \<ge> 8 \<and> length password \<le> 63)"

text \<open>\<^verbatim>\<open>isalnum\<close> of the C locale.\<close>

definition isalnum :: "char \<Rightarrow> bool" where
  "isalnum c \<longleftrightarrow>
     (let n = (of_char c :: nat)
      in (48 \<le> n \<and> n \<le> 57) \<or> (65 \<le> n \<and> n \<le> 90) \<or> (97 \<le> n \<and> n \<le> 122))"

definition isValidHostname :: "string \<Rightarrow> bool" where
  "isValidHostname hostname \<longleftrightarrow>
     (if length hostname = 0 \<or> length hostname > 63 then False
      else if \<not> list_all (\<lambda>c. isalnum c \<or> c = CHR ''-'') hostname then False
      else hd hostname \<noteq> CHR ''-'' \<and> last hostname \<noteq> CHR ''-'')"

section \<open>TimeoutHelper (AutoConnectRAII.h)\<close>

text \<open>
  The helper reads \<^verbatim>\<open>millis()\<close> in its constructor and in every query; the reading is
  the argument \<open>now\<close>.
\<close>

record TimeoutHelper =
  th_startTime :: ulong
  th_timeout :: ulong

definition TimeoutHelper_new :: "ulong \<Rightarrow> ulong \<Rightarrow> TimeoutHelper" where
  "TimeoutHelper_new now timeoutMs = \<lparr>th_startTime = now, th_timeout = timeoutMs\<rparr>"

definition isExpired :: "TimeoutHelper \<Rightarrow> ulong \<Rightarrow> bool" where
  "isExpired t now \<longleftrightarrow> (now - th_startTime t) \<ge> th_timeout t"

definition elapsed :: "TimeoutHelper \<Rightarrow> ulong \<Rightarrow> ulong" where
  "elapsed t now = now - th_startTime t"

definition remaining :: "TimeoutHelper \<Rightarrow> ulong \<Rightarrow> ulong" where
  "remaining t now =
     (let e = elapsed t now
      in if e \<ge> th_timeout t then 0 else th_timeout t - e)"

definition restart :: "TimeoutHelper \<Rightarrow> ulong \<Rightarrow> TimeoutHelper" where
  "restart t now = t\<lparr>th_startTime := now\<rparr>"

section \<open>SecureString (AutoConnectRAII.h)\<close>

text \<open>
  The object owns a heap buffer of \<open>_capacity\<close> bytes; \<open>ss_data\<close> is the content of the
  whole buffer.  \<^verbatim>\<open>c_str()\<close> returns the buffer, read by its callers as a C string.
\<close>

record SecureString =
  ss_data :: "char list"
  ss_capacity :: nat
  ss_length :: nat

definition SecureString_new :: "nat \<Rightarrow> SecureString" where
  "SecureString_new cap = \<lparr>ss_data = replicate cap NUL, ss_capacity = cap, ss_length = 0\<rparr>"

definition ss_set :: "SecureString \<Rightarrow> string \<Rightarrow> bool \<times> SecureString" where
  "ss_set s str =
     (if length str \<ge> ss_capacity s then (False, s)
      else (True, s\<lparr>ss_data := strncpy (replicate (ss_capacity s) NUL) str (length str),
                     ss_length := length str\<rparr>))"

definition ss_c_str :: "SecureString \<Rightarrow> string" where
  "ss_c_str s = cstring (ss_data s)"

definition ss_isEmpty :: "SecureString \<Rightarrow> bool" where
  "ss_isEmpty s \<longleftrightarrow> ss_length s = 0"

definition ss_clear :: "SecureString \<Rightarrow> SecureString" where
  "ss_clear s = s\<lparr>ss_data := replicate (ss_capacity s) NUL, ss_length := 0\<rparr>"

section \<open>EnhancedCredential (AutoConnectCredentialEnhanced.h)\<close>

record EnhancedCredential =
  ssid :: SecureString
  password :: SecureString
  bssid :: "u8 list"
  staticIP :: IPAddress
  gateway :: IPAddress
  subnet :: IPAddress
  dns1 :: IPAddress
  dns2 :: IPAddress
  useStatic :: bool
  timestamp :: u32
  connectionCount :: u32
  lastRSSI :: i32

text \<open>The default constructor; a default-constructed \<^verbatim>\<open>IPAddress\<close> is 0.0.0.0.\<close>

definition EnhancedCredential_new :: EnhancedCredential where
  "EnhancedCredential_new =
     \<lparr>ssid = SecureString_new 33, password = SecureString_new 64,
      bssid = replicate 6 0,
      staticIP = 0, gateway = 0, subnet = 0, dns1 = 0, dns2 = 0,
      useStatic = False, timestamp = 0, connectionCount = 0, lastRSSI = - 120\<rparr>"

definition validate :: "EnhancedCredential \<Rightarrow> ACResult" where
  "validate c =
     (if ss_isEmpty (ssid c) then ACResult INVALID_PARAMETER ''SSID cannot be empty''
      else if ss_length (ssid c) > 32 then ACResult INVALID_PARAMETER ''SSID too long''
      else if ss_length (password c) > 0 \<and> ss_length (password c) < 8
        then ACResult INVALID_PARAMETER ''Password too short''
      else if ss_length (password c) > 63 then ACResult INVALID_PARAMETER ''Password too long''
      else ACResult SUCCESS [])"

text \<open>\<^verbatim>\<open>updateStats(rssi)\<close>; \<open>now\<close> is the reading of \<^verbatim>\<open>millis()\<close>.\<close>

definition updateStats :: "EnhancedCredential \<Rightarrow> ulong \<Rightarrow> i32 \<Rightarrow> EnhancedCredential" where
  "updateStats c now rssi =
     c\<lparr>timestamp := now, connectionCount := connectionCount c + 1, lastRSSI := rssi\<rparr>"

text \<open>
  The fields of the legacy \<^verbatim>\<open>station_config_t\<close> that \<^verbatim>\<open>fromLegacy\<close> reads.  The struct is
  declared outside the files at hand; \<open>sc_ssid\<close> and \<open>sc_password\<close> are the memory that
  starts at the two byte arrays, read as C strings, and \<open>sc_static\<close> is
  \<^verbatim>\<open>dhcp == STA_STATIC\<close>.
\<close>

record station_config_t =
  sc_ssid :: "char list"
  sc_password :: "char list"
  sc_bssid :: "u8 list"
  sc_static :: bool
  sc_ip :: u32
  sc_gateway :: u32
  sc_netmask :: u32
  sc_dns1 :: u32
  sc_dns2 :: u32

definition fromLegacy :: "EnhancedCredential \<Rightarrow> station_config_t \<Rightarrow> EnhancedCredential" where
  "fromLegacy c legacy =
     (let c1 = c\<lparr>ssid := snd (ss_set (ssid c) (cstring (sc_ssid legacy)))\<rparr>;
          c2 = c1\<lparr>password := snd (ss_set (password c1) (cstring (sc_password legacy)))\<rparr>;
          c3 = c2\<lparr>bssid := take 6 (sc_bssid legacy), useStatic := sc_static legacy\<rparr>
      in if useStatic c3
         then c3\<lparr>staticIP := sc_ip legacy, gateway := sc_gateway legacy,
                 subnet := sc_netmask legacy, dns1 := sc_dns1 legacy, dns2 := sc_dns2 legacy\<rparr>
         else c3)"

text \<open>
  The ways a caller can change a credential object: the public members of its two
  \<^verbatim>\<open>SecureString\<close> fields and the struct's own mutators.
\<close>

datatype CredentialOp =
    SetSsid string
  | SetPassword string
  | ClearSsid
  | ClearPassword
  | UpdateStats ulong i32
  | FromLegacy station_config_t

fun applyOp :: "EnhancedCredential \<Rightarrow> CredentialOp \<Rightarrow> EnhancedCredential" where
  "applyOp c (SetSsid s) = c\<lparr>ssid := snd (ss_set (ssid c) s)\<rparr>"
| "applyOp c (SetPassword s) = c\<lparr>password := snd (ss_set (password c) s)\<rparr>"
| "applyOp c ClearSsid = c\<lparr>ssid := ss_clear (ssid c)\<rparr>"
| "applyOp c ClearPassword = c\<lparr>password := ss_clear (password c)\<rparr>"
| "applyOp c (UpdateStats now rssi) = updateStats c now rssi"
| "applyOp c (FromLegacy legacy) = fromLegacy c legacy"

section \<open>Standard-library algorithms used by the store\<close>

text \<open>
  \<^verbatim>\<open>std::find_if\<close>: the position of the first element satisfying the predicate,
  \<open>None\<close> for the end iterator.
\<close>

fun find_if :: "('a \<Rightarrow> bool) \<Rightarrow> 'a list \<Rightarrow> nat option" where
  "find_if p [] = None"
| "find_if p (x # xs) =
     (if p x then Some 0 else case find_if p xs of None \<Rightarrow> None | Some i \<Rightarrow> Some (Suc i))"

text \<open>
  \<^verbatim>\<open>std::min_element(first, last, comp)\<close>: the running position \<open>smallest\<close> is replaced
  whenever \<^verbatim>\<open>comp(*first, *smallest)\<close> holds, so the first of several smallest
  elements is returned; on an empty range the result is the end iterator, here the
  position \<open>length xs = 0\<close>.
\<close>

fun min_element_loop :: "('a \<Rightarrow> 'a \<Rightarrow> bool) \<Rightarrow> nat \<Rightarrow> 'a \<Rightarrow> nat \<Rightarrow> 'a list \<Rightarrow> nat" where
  "min_element_loop cmp smallest sv i [] = smallest"
| "min_element_loop cmp smallest sv i (x # xs) =
     (if cmp x sv then min_element_loop cmp i x (Suc i) xs
      else min_element_loop cmp smallest sv (Suc i) xs)"

definition min_element :: "('a \<Rightarrow> 'a \<Rightarrow> bool) \<Rightarrow> 'a list \<Rightarrow> nat" where
  "min_element cmp xs = (case xs of [] \<Rightarrow> 0 | x # rest \<Rightarrow> min_element_loop cmp 0 x 1 rest)"

text \<open>\<^verbatim>\<open>vector::erase(it)\<close>: undefined for the end iterator, which is \<open>None\<close> here.\<close>

definition erase :: "'a list \<Rightarrow> nat \<Rightarrow> 'a list option" where
  "erase xs i = (if i < length xs then Some (take i xs @ drop (Suc i) xs) else None)"

section \<open>StringBuilder and InputSanitizer::sanitizeHTML (AutoConnectRAII.h)\<close>

type_synonym StringBuilder = "string list"

definition sb_append :: "StringBuilder \<Rightarrow> string \<Rightarrow> StringBuilder" where
  "sb_append parts str = parts @ [str]"

text \<open>
  \<^verbatim>\<open>appendFormat\<close> prints into \<^verbatim>\<open>char buffer[256]\<close> with \<^verbatim>\<open>vsnprintf\<close>, which keeps at
  most 255 bytes; the argument is the fully formatted text.
\<close>

definition sb_appendFormat :: "StringBuilder \<Rightarrow> string \<Rightarrow> StringBuilder" where
  "sb_appendFormat parts formatted = sb_append parts (take 255 formatted)"

definition sb_toString :: "StringBuilder \<Rightarrow> string" where
  "sb_toString parts = concat parts"

text \<open>
  \<^verbatim>\<open>String::replace(find, replace)\<close> for a one-character \<open>find\<close>, the only use in the
  source: every occurrence is replaced, left to right.
\<close>

fun replace_chr :: "char \<Rightarrow> string \<Rightarrow> string \<Rightarrow> string" where
  "replace_chr f r [] = []"
| "replace_chr f r (c # cs) = (if c = f then r @ replace_chr f r cs else c # replace_chr f r cs)"

definition sanitizeHTML :: "string \<Rightarrow> string" where
  "sanitizeHTML input =
     (let clean = input;
          clean = replace_chr CHR ''&'' ''&amp;'' clean;
          clean = replace_chr CHR ''<'' ''&lt;'' clean;
          clean = replace_chr CHR ''>'' ''&gt;'' clean;
          clean = replace_chr CHR 0x22 ''&quot;'' clean;
          clean = replace_chr CHR 0x27 ''&#x27;'' clean
      in clean)"

section \<open>The credential store (class AutoConnectCredentialEnhanced)\<close>

record CredentialStore =
  credentials :: "EnhancedCredential list"
  initialized :: bool
  maxCredentials :: nat

definition CredentialStore_new :: "nat \<Rightarrow> CredentialStore" where
  "CredentialStore_new maxc = \<lparr>credentials = [], initialized = False, maxCredentials = maxc\<rparr>"

text \<open>The two storage hooks are stubs in the source: both return success and do nothing.\<close>

definition loadExistingCredentials :: "CredentialStore \<Rightarrow> ACResult \<times> CredentialStore" where
  "loadExistingCredentials st = (ACResult SUCCESS [], st)"

definition saveCredentials :: "CredentialStore \<Rightarrow> ACResult \<times> CredentialStore" where
  "saveCredentials st = (ACResult SUCCESS [], st)"

definition initialize :: "CredentialStore \<Rightarrow> ACResult \<times> CredentialStore" where
  "initialize st =
     (if initialized st then (ACResult SUCCESS ''Already initialized'', st)
      else (let (result, st1) = loadExistingCredentials st
            in (ACResult SUCCESS ''Credential system initialized'', st1\<lparr>initialized := True\<rparr>)))"

definition same_ssid :: "string \<Rightarrow> EnhancedCredential \<Rightarrow> bool" where
  "same_ssid s cred \<longleftrightarrow> strcmp (ss_c_str (ssid cred)) s = 0"

text \<open>
  \<^verbatim>\<open>addCredential\<close>.  The result is \<open>None\<close> where the source erases the end iterator
  (an eviction from an empty vector, possible only with \<open>maxCredentials = 0\<close>).
\<close>

definition addCredential ::
  "CredentialStore \<Rightarrow> EnhancedCredential \<Rightarrow> (ACResult \<times> CredentialStore) option" where
  "addCredential st credential =
     (let validation = validate credential
      in if \<not> isSuccess validation then Some (validation, st)
         else if \<not> initialized st
           then Some (ACResult INVALID_STATE ''Credential system not initialized'', st)
         else
           (case find_if (same_ssid (ss_c_str (ssid credential))) (credentials st) of
              Some it \<Rightarrow>
                Some (saveCredentials (st\<lparr>credentials := (credentials st)[it := credential]\<rparr>))
            | None \<Rightarrow>
                if length (credentials st) \<ge> maxCredentials st
                then
                  (let oldest = min_element (\<lambda>a b. timestamp a < timestamp b) (credentials st)
                   in case erase (credentials st) oldest of
                        None \<Rightarrow> None
                      | Some rest \<Rightarrow>
                          Some (saveCredentials (st\<lparr>credentials := rest @ [credential]\<rparr>)))
                else Some (saveCredentials
                             (st\<lparr>credentials := credentials st @ [credential]\<rparr>))))"

text \<open>
  \<^verbatim>\<open>getCredential(ssid, credential)\<close>: the third component is the caller's \<open>credential\<close>
  object after the call.  The method is \<^verbatim>\<open>const\<close>; the store is returned as it was.
\<close>

definition getCredential ::
  "CredentialStore \<Rightarrow> string \<Rightarrow> EnhancedCredential
     \<Rightarrow> ACResult \<times> CredentialStore \<times> EnhancedCredential" where
  "getCredential st s credential =
     (if s = [] then (ACResult INVALID_PARAMETER ''SSID cannot be empty'', st, credential)
      else if \<not> initialized st
        then (ACResult INVALID_STATE ''Credential system not initialized'', st, credential)
      else
        (case find_if (same_ssid (cstring s)) (credentials st) of
           None \<Rightarrow>
             (ACResult CREDENTIAL_LOAD_ERROR (''Credential not found for SSID: '' @ s),
              st, credential)
         | Some it \<Rightarrow> (ACResult SUCCESS [], st, credentials st ! it)))"

definition removeCredential :: "CredentialStore \<Rightarrow> string \<Rightarrow> ACResult \<times> CredentialStore" where
  "removeCredential st s =
     (if s = [] then (ACResult INVALID_PARAMETER ''SSID cannot be empty'', st)
      else if \<not> initialized st
        then (ACResult INVALID_STATE ''Credential system not initialized'', st)
      else
        (case find_if (same_ssid (cstring s)) (credentials st) of
           None \<Rightarrow> (ACResult CREDENTIAL_LOAD_ERROR (''Credential not found for SSID: '' @ s), st)
         | Some it \<Rightarrow>
             saveCredentials (st\<lparr>credentials := take it (credentials st)
                                                 @ drop (Suc it) (credentials st)\<rparr>)))"

text \<open>
  \<^verbatim>\<open>getAvailableSSIDs\<close> returns a vector of strings, so it has no way to report an error
  kind.  It collects the SSIDs in store order and hands them to \<^verbatim>\<open>std::sort\<close> with the
  comparator \<open>ssid_more_recent\<close>.  \<^verbatim>\<open>std::sort\<close> is not stable; what it guarantees is a
  permutation in which no later element compares before an earlier one, which is the
  relation \<open>getAvailableSSIDs_returns\<close> between the store and a returned vector.
\<close>

definition ssid_more_recent :: "CredentialStore \<Rightarrow> string \<Rightarrow> string \<Rightarrow> bool" where
  "ssid_more_recent st a b =
     (case (find_if (same_ssid (cstring a)) (credentials st),
            find_if (same_ssid (cstring b)) (credentials st)) of
        (Some credA, Some credB) \<Rightarrow>
          timestamp (credentials st ! credA) > timestamp (credentials st ! credB)
      | _ \<Rightarrow> False)"

definition getAvailableSSIDs_returns :: "CredentialStore \<Rightarrow> string list \<Rightarrow> bool" where
  "getAvailableSSIDs_returns st ssids \<longleftrightarrow>
     mset ssids = mset (map (\<lambda>cred. ss_c_str (ssid cred)) (credentials st))
     \<and> sorted_wrt (\<lambda>a b. \<not> ssid_more_recent st b a) ssids"

definition clearAll :: "CredentialStore \<Rightarrow> ACResult \<times> CredentialStore" where
  "clearAll st = saveCredentials (st\<lparr>credentials := []\<rparr>)"

definition getCredentialCount :: "CredentialStore \<Rightarrow> nat" where
  "getCredentialCount st = length (credentials st)"

text \<open>One pass of the loop body of \<^verbatim>\<open>exportToJSON\<close> for the entry at position \<open>i\<close>.\<close>

definition export_entry :: "StringBuilder \<Rightarrow> nat \<Rightarrow> EnhancedCredential \<Rightarrow> StringBuilder" where
  "export_entry json i cred =
     (let json = (if i > 0 then sb_append json '','' else json);
          json = sb_append json ''{'';
          json = sb_appendFormat json
                   ([CHR 0x22] @ ''ssid'' @ [CHR 0x22] @ '':'' @ [CHR 0x22]
                    @ sanitizeHTML (ss_c_str (ssid cred)) @ [CHR 0x22] @ '','');
          json = sb_appendFormat json
                   ([CHR 0x22] @ ''useStatic'' @ [CHR 0x22] @ '':''
                    @ (if useStatic cred then ''true'' else ''false'') @ '','');
          json = sb_appendFormat json
                   ([CHR 0x22] @ ''timestamp'' @ [CHR 0x22] @ '':''
                    @ decimal (unat (timestamp cred)) @ '','');
          json = sb_appendFormat json
                   ([CHR 0x22] @ ''connectionCount'' @ [CHR 0x22] @ '':''
                    @ decimal (unat (connectionCount cred)));
          json = sb_append json ''}''
      in json)"

fun export_loop :: "StringBuilder \<Rightarrow> nat \<Rightarrow> EnhancedCredential list \<Rightarrow> StringBuilder" where
  "export_loop json i [] = json"
| "export_loop json i (cred # rest) = export_loop (export_entry json i cred) (Suc i) rest"

text \<open>\<^verbatim>\<open>exportToJSON(jsonOutput)\<close>: the result and the text assigned to \<open>jsonOutput\<close>.\<close>

definition exportToJSON :: "CredentialStore \<Rightarrow> ACResult \<times> string" where
  "exportToJSON st =
     (let json = sb_append [] ([CHR ''{'', CHR 0x22] @ ''credentials'' @ [CHR 0x22] @ '':['');
          json = export_loop json 0 (credentials st);
          json = sb_append json '']}''
      in (ACResult SUCCESS [], sb_toString json))"

section \<open>NetworkConfig (AutoConnectAdvancedConfig.h)\<close>

record NetworkConfig =
  nc_ssid :: string
  nc_password :: string
  nc_hostname :: string
  nc_staticIP :: IPAddress
  nc_gateway :: IPAddress
  nc_subnet :: IPAddress
  nc_dns1 :: IPAddress
  nc_dns2 :: IPAddress
  useStaticIP :: bool
  validateCertificates :: bool
  connectionTimeoutMs :: u32
  maxRetries :: u8

definition NetworkConfig_new :: NetworkConfig where
  "NetworkConfig_new =
     \<lparr>nc_ssid = [], nc_password = [], nc_hostname = [],
      nc_staticIP = 0, nc_gateway = 0, nc_subnet = 0, nc_dns1 = 0, nc_dns2 = 0,
      useStaticIP = False, validateCertificates = False,
      connectionTimeoutMs = 30000, maxRetries = 3\<rparr>"

definition nc_validate :: "NetworkConfig \<Rightarrow> ACResult" where
  "nc_validate cfg =
     (if \<not> isValidSSID (nc_ssid cfg) then ACResult INVALID_PARAMETER ''Invalid SSID''
      else if \<not> isValidPassword (nc_password cfg)
        then ACResult INVALID_PARAMETER ''Invalid password''
      else if nc_hostname cfg \<noteq> [] \<and> \<not> isValidHostname (nc_hostname cfg)
        then ACResult INVALID_PARAMETER ''Invalid hostname''
      else if connectionTimeoutMs cfg < 5000 \<or> connectionTimeoutMs cfg > 300000
        then ACResult INVALID_PARAMETER ''Connection timeout out of range (5-300 seconds)''
      else ACResult SUCCESS [])"

section \<open>The connection orchestrator (AutoConnectCoreEnhanced.hpp)\<close>

text \<open>
  What the orchestrator sees of the device.  \<open>clock\<close> is \<^verbatim>\<open>millis()\<close>, \<open>freeHeap\<close> is
  \<^verbatim>\<open>ESP.getFreeHeap()\<close> on entry, \<open>calls\<close> counts the calls of \<^verbatim>\<open>beginWithResult\<close> made
  so far, the next five fields are the members of \<^verbatim>\<open>_apConfig\<close> that the methods
  write, and \<open>store\<close> is the device's credential store.  No method of
  AutoConnectCoreEnhanced.hpp refers to an \<^verbatim>\<open>AutoConnectCredentialEnhanced\<close> object or calls
  \<^verbatim>\<open>updateStats\<close>, so none of the functions below writes that field.
\<close>

record World =
  clock :: ulong
  freeHeap :: nat
  calls :: nat
  hostName :: string
  staip :: u32
  staGateway :: u32
  staNetmask :: u32
  ap_dns1 :: u32
  ap_dns2 :: u32
  store :: CredentialStore

text \<open>
  The connect capability \<^verbatim>\<open>begin(ssid, passphrase, timeout)\<close> and the status query
  \<^verbatim>\<open>portalStatus()\<close> belong to the legacy core and the radio driver; the specification
  treats them as an opaque capability that reports success or failure.  Their answers
  during one call of \<^verbatim>\<open>beginWithResult\<close> are an \<open>AttemptOutcome\<close>: the free heap read at
  the start of the call, the value returned by \<^verbatim>\<open>begin\<close>, whether the status has the
  \<^verbatim>\<open>AC_TIMEOUT\<close> and the \<^verbatim>\<open>AC_CAPTIVEPORTAL\<close> bit, and the milliseconds that pass
  during the call.  The environment \<open>radio\<close> gives the outcome of the \<open>n\<close>-th call.
\<close>

record AttemptOutcome =
  ao_heap :: nat
  ao_began :: bool
  ao_timeout :: bool
  ao_captive :: bool
  ao_duration :: ulong

type_synonym Radio = "nat \<Rightarrow> AttemptOutcome"

definition delay :: "World \<Rightarrow> ulong \<Rightarrow> World" where
  "delay w ms = w\<lparr>clock := clock w + ms\<rparr>"

definition checkMemoryAvailable :: "nat \<Rightarrow> nat \<Rightarrow> bool" where
  "checkMemoryAvailable available required \<longleftrightarrow> available \<ge> required"

definition validateSSID :: "string \<Rightarrow> ACResult" where
  "validateSSID s =
     (if \<not> isValidSSID s
      then ACResult INVALID_PARAMETER
             (''Invalid SSID: '' @ s @ '' (length: '' @ decimal (length s) @ '')'')
      else ACResult SUCCESS [])"

definition validatePassword :: "string \<Rightarrow> ACResult" where
  "validatePassword p =
     (if \<not> isValidPassword p
      then ACResult INVALID_PARAMETER (''Invalid password length: '' @ decimal (length p))
      else ACResult SUCCESS [])"

definition validateHostname :: "string \<Rightarrow> ACResult" where
  "validateHostname h =
     (if \<not> isValidHostname h then ACResult INVALID_PARAMETER (''Invalid hostname: '' @ h)
      else ACResult SUCCESS [])"

text \<open>
  The result of \<^verbatim>\<open>beginWithResult(ssid, passphrase, timeout)\<close> as a function of its
  arguments (\<open>None\<close> is \<^verbatim>\<open>nullptr\<close>, otherwise the memory the pointer refers to) and of
  the outcome of the call.
\<close>

definition beginResult ::
  "char list option \<Rightarrow> char list option \<Rightarrow> ulong \<Rightarrow> AttemptOutcome \<Rightarrow> ACResult" where
  "beginResult ssid_p pass_p tmo outc =
     (if \<not> checkMemoryAvailable (ao_heap outc) 8192
        then ACResult MEMORY_INSUFFICIENT ''Insufficient memory to start AutoConnect''
      else if ssid_p \<noteq> None \<and> \<not> isSuccess (validateSSID (cstring (the ssid_p)))
        then validateSSID (cstring (the ssid_p))
      else if pass_p \<noteq> None \<and> \<not> isSuccess (validatePassword (cstring (the pass_p)))
        then validatePassword (cstring (the pass_p))
      else if tmo > 300000
        then ACResult INVALID_PARAMETER ''Timeout too large (max 5 minutes)''
      else if \<not> ao_began outc then
        (if ao_timeout outc then ACResult WIFI_TIMEOUT ''WiFi connection timeout''
         else if ao_captive outc then ACResult SUCCESS ''Captive portal started''
         else ACResult WIFI_CONNECT_FAILED ''WiFi connection failed'')
      else ACResult SUCCESS ''WiFi connection established'')"

definition beginWithResult ::
  "Radio \<Rightarrow> World \<Rightarrow> char list option \<Rightarrow> char list option \<Rightarrow> ulong \<Rightarrow> ACResult \<times> World" where
  "beginWithResult radio w ssid_p pass_p tmo =
     (let outc = radio (calls w)
      in (beginResult ssid_p pass_p tmo outc,
          w\<lparr>clock := clock w + ao_duration outc, calls := Suc (calls w)\<rparr>))"

definition isSet :: "IPAddress \<Rightarrow> bool" where
  "isSet a \<longleftrightarrow> a \<noteq> 0"

definition setHostname :: "World \<Rightarrow> string \<Rightarrow> ACResult \<times> World" where
  "setHostname w h =
     (let validation = validateHostname h
      in if \<not> isSuccess validation then (validation, w)
         else (ACResult SUCCESS ''Hostname set successfully'', w\<lparr>hostName := h\<rparr>))"

definition setStaticIP :: "World \<Rightarrow> IPAddress \<Rightarrow> IPAddress \<Rightarrow> IPAddress \<Rightarrow> ACResult \<times> World" where
  "setStaticIP w ip gw sn =
     (if \<not> isSet ip \<or> \<not> isSet gw \<or> \<not> isSet sn
        then (ACResult INVALID_PARAMETER ''Invalid IP configuration'', w)
      else (ACResult SUCCESS ''Static IP configured'',
            w\<lparr>staip := ip, staGateway := gw, staNetmask := sn\<rparr>))"

definition setDNS :: "World \<Rightarrow> IPAddress \<Rightarrow> IPAddress \<Rightarrow> ACResult \<times> World" where
  "setDNS w d1 d2 =
     (if \<not> isSet d1 then (ACResult INVALID_PARAMETER ''Primary DNS cannot be empty'', w)
      else (ACResult SUCCESS ''DNS configured'',
            (if isSet d2 then w\<lparr>ap_dns1 := d1, ap_dns2 := d2\<rparr> else w\<lparr>ap_dns1 := d1\<rparr>)))"

text \<open>
  \<^verbatim>\<open>connectToWiFi\<close> up to the retry loop: validation, the memory check, the hostname
  (a failure is only logged) and the static addresses (a failure is returned).
  A successful result means that the loop is entered, in the world returned.
\<close>

definition connectToWiFi_prepare :: "World \<Rightarrow> NetworkConfig \<Rightarrow> ACResult \<times> World" where
  "connectToWiFi_prepare w cfg =
     (let validation = nc_validate cfg
      in if \<not> isSuccess validation then (validation, w)
         else if \<not> checkMemoryAvailable (freeHeap w) 4096
           then (ACResult MEMORY_INSUFFICIENT ''Insufficient memory for WiFi connection'', w)
         else
           (let w1 = (if nc_hostname cfg \<noteq> [] then snd (setHostname w (nc_hostname cfg)) else w)
            in if useStaticIP cfg then
                 (let (ipResult, w2) =
                        setStaticIP w1 (nc_staticIP cfg) (nc_gateway cfg) (nc_subnet cfg)
                  in if \<not> isSuccess ipResult then (ipResult, w2)
                     else if isSet (nc_dns1 cfg) then
                       (let (dnsResult, w3) = setDNS w2 (nc_dns1 cfg) (nc_dns2 cfg)
                        in if \<not> isSuccess dnsResult then (dnsResult, w3)
                           else (ACResult SUCCESS [], w3))
                     else (ACResult SUCCESS [], w2))
               else (ACResult SUCCESS [], w1)))"

text \<open>The \<^verbatim>\<open>while\<close> loop of \<^verbatim>\<open>connectToWiFi\<close> and the \<^verbatim>\<open>return\<close> that follows it.\<close>

function retry_loop ::
  "Radio \<Rightarrow> NetworkConfig \<Rightarrow> TimeoutHelper \<Rightarrow> u8 \<Rightarrow> World \<Rightarrow> ACResult \<times> World" where
  "retry_loop radio cfg tmo retries w =
     (if retries < maxRetries cfg \<and> \<not> isExpired tmo (clock w) then
        (let (result, w1) = beginWithResult radio w (Some (nc_ssid cfg)) (Some (nc_password cfg))
                              (connectionTimeoutMs cfg)
         in if isSuccess result then (result, w1)
            else
              (let retries1 = retries + 1;
                   w2 = (if retries1 < maxRetries cfg then delay w1 1000 else w1)
               in retry_loop radio cfg tmo retries1 w2))
      else (ACResult WIFI_CONNECT_FAILED
              (''Failed to connect after '' @ decimal (unat retries) @ '' attempts''), w))"
  by pat_completeness auto
termination
proof (relation "measure (\<lambda>(radio, cfg, tmo, retries, w). unat (maxRetries cfg) - unat retries)")
  show "wf (measure (\<lambda>(radio, cfg, tmo, retries, w). unat (maxRetries cfg) - unat retries))"
    by simp
next
  fix radio :: Radio and cfg :: NetworkConfig and tmo :: TimeoutHelper
    and retries :: u8 and w :: World and x :: "ACResult \<times> World" and result :: ACResult
    and w1 :: World and retries1 :: u8 and w2 :: World
  assume a: "retries < maxRetries cfg \<and> \<not> isExpired tmo (clock w)"
    and r1: "retries1 = retries + 1"
  from a have lt: "unat retries < unat (maxRetries cfg)"
    by (simp add: word_less_nat_alt)
  have "unat (maxRetries cfg) < 256"
    using unsigned_less [of "maxRetries cfg", where ?'a = nat] by simp
  with lt have "unat retries + 1 < 256" by simp
  then have "unat (retries + 1) = unat retries + 1"
    by (simp add: unat_word_ariths)
  with lt r1
  show "((radio, cfg, tmo, retries1, w2), (radio, cfg, tmo, retries, w))
          \<in> measure (\<lambda>(radio, cfg, tmo, retries, w). unat (maxRetries cfg) - unat retries)"
    by simp
qed

declare retry_loop.simps [simp del]

definition connectToWiFi :: "Radio \<Rightarrow> World \<Rightarrow> NetworkConfig \<Rightarrow> ACResult \<times> World" where
  "connectToWiFi radio w cfg =
     (let (r0, w0) = connectToWiFi_prepare w cfg
      in if \<not> isSuccess r0 then (r0, w0)
         else retry_loop radio cfg (TimeoutHelper_new (clock w0) (connectionTimeoutMs cfg)) 0 w0)"

section \<open>Invariants of the data\<close>

text \<open>
  The class invariant of \<^verbatim>\<open>SecureString\<close>: the buffer has \<open>_capacity\<close> bytes, \<open>_length\<close> is
  below \<open>_capacity\<close>, and every byte from position \<open>_length\<close> on is NUL.
\<close>

definition ss_inv :: "SecureString \<Rightarrow> bool" where
  "ss_inv s \<longleftrightarrow>
     length (ss_data s) = ss_capacity s \<and> ss_length s < ss_capacity s
     \<and> drop (ss_length s) (ss_data s) = replicate (ss_capacity s - ss_length s) NUL"

text \<open>A credential object whose two buffers have the sizes the constructor gives them.\<close>

definition cred_inv :: "EnhancedCredential \<Rightarrow> bool" where
  "cred_inv c \<longleftrightarrow>
     ss_inv (ssid c) \<and> ss_capacity (ssid c) = 33
     \<and> ss_inv (password c) \<and> ss_capacity (password c) = 64"

section \<open>Fixtures\<close>

text \<open>
  A credential as a caller builds it: default-constructed, then \<^verbatim>\<open>ssid.set\<close>,
  \<^verbatim>\<open>password.set\<close> and an assignment to \<^verbatim>\<open>timestamp\<close>.
\<close>

definition mkCredential :: "string \<Rightarrow> string \<Rightarrow> u32 \<Rightarrow> EnhancedCredential" where
  "mkCredential s p ts =
     (foldl applyOp EnhancedCredential_new [SetSsid s, SetPassword p])\<lparr>timestamp := ts\<rparr>"

text \<open>A store after its constructor and a first call of \<^verbatim>\<open>initialize\<close>.\<close>

definition initialized_store :: "nat \<Rightarrow> CredentialStore" where
  "initialized_store maxc = snd (initialize (CredentialStore_new maxc))"

section \<open>The export format as the specification words it\<close>

text \<open>
  The definitions of this section follow the specification, not the code: the
  snapshot is \<^verbatim>\<open>{"credentials":[entry, ...]}\<close> where every entry has the four keys ssid,
  useStatic, timestamp and connectionCount in this order, and the SSID has the five
  markup characters replaced.  They are compared with \<open>exportToJSON\<close> below.
\<close>

definition html_escape_char :: "char \<Rightarrow> string" where
  "html_escape_char c =
     (if c = CHR ''&'' then ''&amp;''
      else if c = CHR ''<'' then ''&lt;''
      else if c = CHR ''>'' then ''&gt;''
      else if c = CHR 0x22 then ''&quot;''
      else if c = CHR 0x27 then ''&#x27;''
      else [c])"

definition html_escape :: "string \<Rightarrow> string" where
  "html_escape s = concat (map html_escape_char s)"

definition json_key :: "string \<Rightarrow> string" where
  "json_key k = [CHR 0x22] @ k @ [CHR 0x22] @ '':''"

definition snapshot_entry :: "EnhancedCredential \<Rightarrow> string" where
  "snapshot_entry c =
     ''{'' @ json_key ''ssid'' @ [CHR 0x22] @ html_escape (ss_c_str (ssid c)) @ [CHR 0x22]
     @ '','' @ json_key ''useStatic'' @ (if useStatic c then ''true'' else ''false'')
     @ '','' @ json_key ''timestamp'' @ decimal (unat (timestamp c))
     @ '','' @ json_key ''connectionCount'' @ decimal (unat (connectionCount c))
     @ ''}''"

fun join_with :: "string \<Rightarrow> string list \<Rightarrow> string" where
  "join_with sep [] = []"
| "join_with sep [x] = x"
| "join_with sep (x # y # ys) = x @ sep @ join_with sep (y # ys)"

definition snapshot_text :: "EnhancedCredential list \<Rightarrow> string" where
  "snapshot_text cs =
     ''{'' @ json_key ''credentials'' @ ''['' @ join_with '','' (map snapshot_entry cs) @ '']}''"

text \<open>The store with the password buffer of every entry replaced by another one.\<close>

definition replace_passwords :: "CredentialStore \<Rightarrow> SecureString list \<Rightarrow> CredentialStore" where
  "replace_passwords st ps =
     st\<lparr>credentials := map (\<lambda>(c, p). c\<lparr>password := p\<rparr>) (zip (credentials st) ps)\<rparr>"

text \<open>A caller that adds the credentials of a list one after another, keeping the results.\<close>

fun addCredentials ::
  "CredentialStore \<Rightarrow> EnhancedCredential list \<Rightarrow> (ACResult list \<times> CredentialStore) option" where
  "addCredentials st [] = Some ([], st)"
| "addCredentials st (c # cs) =
     (case addCredential st c of
        None \<Rightarrow> None
      | Some (r, st1) \<Rightarrow>
          (case addCredentials st1 cs of
             None \<Rightarrow> None
           | Some (rs, st2) \<Rightarrow> Some (r # rs, st2)))"

text \<open>A store holding two entries, one of them with markup characters in its SSID.\<close>

definition demo_store :: CredentialStore where
  "demo_store =
     \<lparr>credentials = [mkCredential ''a<b&c'' ''password1'' 10, mkCredential ''net'' [] 20],
      initialized = True, maxCredentials = 10\<rparr>"

definition demo_passwords :: "SecureString list" where
  "demo_passwords =
     [SecureString_new 64, snd (ss_set (SecureString_new 64) ''correct horse battery'')]"

section \<open>Connection sequences\<close>

text \<open>
  The result of the call \<^verbatim>\<open>beginWithResult(ssid, password, connectionTimeoutMs)\<close> that the
  retry loop makes, when the call has the outcome \<open>outc\<close>.  An attempt succeeds when
  this result is a success.
\<close>

definition attempt_result :: "NetworkConfig \<Rightarrow> AttemptOutcome \<Rightarrow> ACResult" where
  "attempt_result cfg outc =
     beginResult (Some (nc_ssid cfg)) (Some (nc_password cfg)) (connectionTimeoutMs cfg) outc"

text \<open>
  A device whose store holds one credential for the network ''home'', and four
  radios: one on which every attempt runs into the driver's timeout after 10000 ms,
  one on which every attempt is refused after 2000 ms, one on which the second
  attempt connects, and one on which every attempt fails after 2000 ms and leaves the
  status with \<^verbatim>\<open>AC_CAPTIVEPORTAL\<close> set and \<^verbatim>\<open>AC_TIMEOUT\<close> clear.
\<close>

definition home_world :: World where
  "home_world =
     \<lparr>clock = 0, freeHeap = 40000, calls = 0, hostName = [],
      staip = 0, staGateway = 0, staNetmask = 0, ap_dns1 = 0, ap_dns2 = 0,
      store = \<lparr>credentials = [mkCredential ''home'' ''password1'' 10],
               initialized = True, maxCredentials = 10\<rparr>\<rparr>"

definition home_config :: "u32 \<Rightarrow> u8 \<Rightarrow> NetworkConfig" where
  "home_config timeoutMs retries =
     NetworkConfig_new\<lparr>nc_ssid := ''home'', nc_password := ''password1'',
                        connectionTimeoutMs := timeoutMs, maxRetries := retries\<rparr>"

definition outcome_timeout :: AttemptOutcome where
  "outcome_timeout =
     \<lparr>ao_heap = 40000, ao_began = False, ao_timeout = True, ao_captive = False,
      ao_duration = 10000\<rparr>"

definition outcome_refused :: AttemptOutcome where
  "outcome_refused =
     \<lparr>ao_heap = 40000, ao_began = False, ao_timeout = False, ao_captive = False,
      ao_duration = 2000\<rparr>"

definition outcome_connected :: AttemptOutcome where
  "outcome_connected =
     \<lparr>ao_heap = 40000, ao_began = True, ao_timeout = False, ao_captive = False,
      ao_duration = 3000\<rparr>"

definition outcome_captive :: AttemptOutcome where
  "outcome_captive =
     \<lparr>ao_heap = 40000, ao_began = False, ao_timeout = False, ao_captive = True,
      ao_duration = 2000\<rparr>"

definition radio_timeout :: Radio where
  "radio_timeout n = outcome_timeout"

definition radio_refusing :: Radio where
  "radio_refusing n = outcome_refused"

definition radio_second_connects :: Radio where
  "radio_second_connects n = (if n = 1 then outcome_connected else outcome_refused)"

definition radio_captive :: Radio where
  "radio_captive n = outcome_captive"

section \<open>Validator: password lengths\<close>

text \<open>
  Claim C7.  For every password string \<open>p\<close> the validator accepts \<open>p\<close> if and only if its
  length is 0 or lies in 8..63; lengths 7 and 64 are rejected, lengths 0, 8 and 63 are
  accepted.  The same holds for the result of \<^verbatim>\<open>_validatePassword\<close>, which wraps the
  predicate.
\<close>

theorem C7_isValidPassword_iff:
  "(isValidPassword p \<longleftrightarrow> length p = 0 \<or> (8 \<le> length p \<and> length p \<le> 63))
   \<and> (isSuccess (validatePassword p) \<longleftrightarrow> length p = 0 \<or> (8 \<le> length p \<and> length p \<le> 63))
   \<and> \<not> isValidPassword (replicate 7 c) \<and> \<not> isValidPassword (replicate 64 c)
   \<and> isValidPassword [] \<and> isValidPassword (replicate 8 c) \<and> isValidPassword (replicate 63 c)"
  by (simp add: isValidPassword_def validatePassword_def isSuccess_def)

section \<open>TimeoutHelper: the remaining time\<close>

lemma remaining_no_wrap:
  assumes "elapsed t now < th_timeout t"
  shows "remaining t now = th_timeout t - elapsed t now"
    and "unat (remaining t now) = unat (th_timeout t) - unat (elapsed t now)"
    and "unat (elapsed t now) < unat (th_timeout t)"
proof -
  from assms have le: "elapsed t now \<le> th_timeout t" by simp
  from assms show "remaining t now = th_timeout t - elapsed t now"
    by (simp add: remaining_def Let_def not_le [symmetric])
  then show "unat (remaining t now) = unat (th_timeout t) - unat (elapsed t now)"
    using le by (simp add: unat_sub)
  from assms show "unat (elapsed t now) < unat (th_timeout t)"
    by (simp add: word_less_nat_alt)
qed

lemma remaining_zero_iff: "remaining t now = 0 \<longleftrightarrow> isExpired t now"
proof (cases "elapsed t now < th_timeout t")
  case True
  then have "th_timeout t - elapsed t now \<noteq> 0" by auto
  with True show ?thesis
    by (simp add: remaining_def isExpired_def elapsed_def Let_def not_le [symmetric])
next
  case False
  then show ?thesis
    by (simp add: remaining_def isExpired_def elapsed_def Let_def not_less)
qed

text \<open>
  Claim C10.  At every reading \<open>now\<close> of the clock, \<open>remaining\<close> is the timeout minus the
  elapsed time when the elapsed time is below the timeout, and 0 otherwise; the
  subtraction does not wrap around (its value as a number is the difference of the
  two numbers); and \<open>remaining\<close> is 0 exactly when \<open>isExpired\<close> holds.
\<close>

theorem C10_remaining:
  "(elapsed t now < th_timeout t \<longrightarrow>
      remaining t now = th_timeout t - elapsed t now
      \<and> unat (remaining t now) = unat (th_timeout t) - unat (elapsed t now)
      \<and> unat (elapsed t now) < unat (th_timeout t))
   \<and> (\<not> elapsed t now < th_timeout t \<longrightarrow> remaining t now = 0)
   \<and> (remaining t now = 0 \<longleftrightarrow> isExpired t now)"
proof (intro conjI impI)
  show "remaining t now = 0 \<longleftrightarrow> isExpired t now" by (rule remaining_zero_iff)
  show "remaining t now = 0" if "\<not> elapsed t now < th_timeout t"
    using that by (simp add: remaining_def Let_def not_less)
qed (rule remaining_no_wrap, assumption)+

text \<open>
  The helper started at 4294967000 with 5000 ms, read after the clock has wrapped to
  704 (1000 ms later), and a helper read after its timeout.
\<close>

theorem C10_remaining_witness:
  "elapsed (TimeoutHelper_new 4294967000 5000) 704 < th_timeout (TimeoutHelper_new 4294967000 5000)
   \<and> remaining (TimeoutHelper_new 4294967000 5000) 704 = 4000
   \<and> \<not> isExpired (TimeoutHelper_new 4294967000 5000) 704
   \<and> \<not> elapsed (TimeoutHelper_new 1000 5000) 6000 < th_timeout (TimeoutHelper_new 1000 5000)
   \<and> remaining (TimeoutHelper_new 1000 5000) 6000 = 0
   \<and> isExpired (TimeoutHelper_new 1000 5000) 6000"
  using C10_remaining [of "TimeoutHelper_new 4294967000 5000" 704]
    C10_remaining [of "TimeoutHelper_new 1000 5000" 6000]
  by (simp add: TimeoutHelper_new_def elapsed_def isExpired_def)

section \<open>SecureString: capacity\<close>

lemma cstring_length_le: "length (cstring (xs @ NUL # ys)) \<le> length xs"
  by (induction xs) (simp_all add: cstring_def)

lemma cstring_no_NUL: "NUL \<notin> set xs \<Longrightarrow> cstring (xs @ NUL # ys) = xs"
  by (induction xs) (auto simp add: cstring_def)

lemma cstring_idem: "NUL \<notin> set xs \<Longrightarrow> cstring xs = xs"
  by (induction xs) (auto simp add: cstring_def)

lemma NUL_notin_cstring: "NUL \<notin> set (cstring xs)"
  by (induction xs) (auto simp add: cstring_def)

lemma ss_inv_new: "0 < cap \<Longrightarrow> ss_inv (SecureString_new cap)"
  by (simp add: ss_inv_def SecureString_new_def)

lemma ss_inv_clear: "ss_inv s \<Longrightarrow> ss_inv (ss_clear s)"
  by (simp add: ss_inv_def ss_clear_def)

lemma ss_capacity_clear: "ss_capacity (ss_clear s) = ss_capacity s"
  by (simp add: ss_clear_def)

lemma ss_capacity_set: "ss_capacity (snd (ss_set s str)) = ss_capacity s"
  by (simp add: ss_set_def)

lemma length_cstring_le: "length (cstring xs) \<le> length xs"
  by (simp add: cstring_def length_takeWhile_le)

lemma ss_inv_set: "ss_inv s \<Longrightarrow> ss_inv (snd (ss_set s str))"
  using length_cstring_le [of str]
  by (auto simp add: ss_inv_def ss_set_def strncpy_def Let_def min_def)

lemma ss_c_str_length: 
  assumes "ss_inv s" shows "length (ss_c_str s) \<le> ss_length s"
proof -
  from assms obtain n where n: "ss_capacity s - ss_length s = Suc n"
    by (cases "ss_capacity s - ss_length s") (auto simp: ss_inv_def)
  have "ss_data s = take (ss_length s) (ss_data s) @ drop (ss_length s) (ss_data s)"
    by simp
  also have "\<dots> = take (ss_length s) (ss_data s) @ NUL # replicate n NUL"
    using assms n by (simp add: ss_inv_def)
  finally have "ss_data s = take (ss_length s) (ss_data s) @ NUL # replicate n NUL" .
  then have "length (cstring (ss_data s)) \<le> length (take (ss_length s) (ss_data s))"
    using cstring_length_le [of "take (ss_length s) (ss_data s)" "replicate n NUL"] by simp
  then show ?thesis by (simp add: ss_c_str_def)
qed

lemma ss_set_c_str:
  assumes "length str < ss_capacity s"
  shows "ss_c_str (snd (ss_set s str)) = cstring str"
proof -
  let ?b = "cstring str"
  have le: "length ?b \<le> length str" by (rule length_cstring_le)
  obtain k where k: "length str - length ?b + (ss_capacity s - length str) = Suc k"
    using assms by (cases "length str - length ?b + (ss_capacity s - length str)") auto
  have "ss_data (snd (ss_set s str)) = ?b @ replicate (Suc k) NUL"
    using assms le k by (simp add: ss_set_def strncpy_def Let_def replicate_add [symmetric] del: replicate_Suc)
  then have "ss_c_str (snd (ss_set s str)) = cstring (?b @ NUL # replicate k NUL)"
    by (simp add: ss_c_str_def)
  also have "\<dots> = ?b" by (rule cstring_no_NUL) (rule NUL_notin_cstring)
  finally show ?thesis .
qed

lemma cred_inv_new: "cred_inv EnhancedCredential_new"
  by (simp add: cred_inv_def EnhancedCredential_new_def ss_inv_new)
     (simp add: SecureString_new_def)

lemma cred_inv_applyOp: "cred_inv c \<Longrightarrow> cred_inv (applyOp c op)"
  by (cases op)
     (simp_all add: cred_inv_def ss_inv_set ss_inv_clear ss_capacity_set ss_capacity_clear
        updateStats_def fromLegacy_def Let_def)

lemma cred_inv_foldl: "cred_inv c \<Longrightarrow> cred_inv (foldl applyOp c ops)"
  by (induction ops arbitrary: c) (simp_all add: cred_inv_applyOp)

lemma cred_inv_bounds:
  assumes "cred_inv c"
  shows "ss_length (ssid c) \<le> 32" and "length (ss_c_str (ssid c)) \<le> 32"
    and "ss_length (password c) \<le> 63" and "length (ss_c_str (password c)) \<le> 63"
proof -
  from assms show a: "ss_length (ssid c) \<le> 32" and b: "ss_length (password c) \<le> 63"
    by (simp_all add: cred_inv_def ss_inv_def)
  from assms have "length (ss_c_str (ssid c)) \<le> ss_length (ssid c)"
    and "length (ss_c_str (password c)) \<le> ss_length (password c)"
    by (simp_all add: cred_inv_def ss_c_str_length)
  with a b show "length (ss_c_str (ssid c)) \<le> 32" and "length (ss_c_str (password c)) \<le> 63"
    by simp_all
qed

text \<open>
  Claim C9.  For every \<^verbatim>\<open>SecureString\<close> \<open>s\<close> and every string, \<^verbatim>\<open>set\<close> succeeds if and only
  if the string is shorter than the capacity; a failed \<^verbatim>\<open>set\<close> leaves the object as it
  was; after a successful one \<^verbatim>\<open>length()\<close> is the length of the string.  Hence, whatever
  a caller does to a default-constructed credential, its SSID buffer holds at most 32
  bytes and its password buffer at most 63, both by \<^verbatim>\<open>length()\<close> and as C strings.
\<close>

theorem C9_SecureString_set:
  "(fst (ss_set s str) \<longleftrightarrow> length str < ss_capacity s)
   \<and> (\<not> fst (ss_set s str) \<longrightarrow> snd (ss_set s str) = s)
   \<and> (fst (ss_set s str) \<longrightarrow> ss_length (snd (ss_set s str)) = length str)
   \<and> ss_length (ssid (foldl applyOp EnhancedCredential_new ops)) \<le> 32
   \<and> length (ss_c_str (ssid (foldl applyOp EnhancedCredential_new ops))) \<le> 32
   \<and> ss_length (password (foldl applyOp EnhancedCredential_new ops)) \<le> 63
   \<and> length (ss_c_str (password (foldl applyOp EnhancedCredential_new ops))) \<le> 63"
proof -
  have "cred_inv (foldl applyOp EnhancedCredential_new ops)"
    by (rule cred_inv_foldl) (rule cred_inv_new)
  from cred_inv_bounds [OF this] show ?thesis
    by (simp add: ss_set_def)
qed

text \<open>A 33-byte string is refused by the SSID buffer, a 32-byte string is stored.\<close>

theorem C9_SecureString_set_witness:
  "\<not> fst (ss_set (SecureString_new 33) (replicate 33 CHR ''a''))
   \<and> snd (ss_set (SecureString_new 33) (replicate 33 CHR ''a'')) = SecureString_new 33
   \<and> fst (ss_set (SecureString_new 33) (replicate 32 CHR ''b''))
   \<and> ss_length (snd (ss_set (SecureString_new 33) (replicate 32 CHR ''b''))) = 32
   \<and> ss_length (ssid (foldl applyOp EnhancedCredential_new
         [SetSsid (replicate 32 CHR ''b''), SetSsid (replicate 33 CHR ''a'')])) \<le> 32"
  using C9_SecureString_set [of "SecureString_new 33" "replicate 33 CHR ''a''" 
          "[SetSsid (replicate 32 CHR ''b''), SetSsid (replicate 33 CHR ''a'')]"]
    C9_SecureString_set [of "SecureString_new 33" "replicate 32 CHR ''b''" "[]"]
  by (simp add: SecureString_new_def)

section \<open>SSID comparison\<close>

lemma strcmp_eq_iff: "strcmp a b = 0 \<longleftrightarrow> a = b"
  by (induction a b rule: strcmp.induct) auto

lemma same_ssid_iff: "same_ssid s cred \<longleftrightarrow> ss_c_str (ssid cred) = s"
  by (simp add: same_ssid_def strcmp_eq_iff)

section \<open>Fixture credentials\<close>

lemma mkCredential_inv: "cred_inv (mkCredential s p ts)"
  using cred_inv_foldl [OF cred_inv_new, of "[SetSsid s, SetPassword p]"]
  by (simp add: mkCredential_def cred_inv_def)

lemma mkCredential_ssid:
  assumes "length s \<le> 32"
  shows "ss_c_str (ssid (mkCredential s p ts)) = cstring s"
    and "ss_length (ssid (mkCredential s p ts)) = length s"
  using assms ss_set_c_str [of s "SecureString_new 33"]
  by (simp_all add: mkCredential_def EnhancedCredential_new_def)
     (simp_all add: SecureString_new_def ss_set_def)

lemma mkCredential_password:
  assumes "length p \<le> 63"
  shows "ss_length (password (mkCredential s p ts)) = length p"
  using assms
  by (simp_all add: mkCredential_def EnhancedCredential_new_def)
     (simp_all add: SecureString_new_def ss_set_def)

lemma mkCredential_fields:
  "timestamp (mkCredential s p ts) = ts"
  "connectionCount (mkCredential s p ts) = 0"
  "useStatic (mkCredential s p ts) = False"
  by (simp_all add: mkCredential_def EnhancedCredential_new_def)

lemma mkCredential_valid:
  assumes "0 < length s" "length s \<le> 32" "length p = 0 \<or> (8 \<le> length p \<and> length p \<le> 63)"
  shows "validate (mkCredential s p ts) = ACResult SUCCESS []"
proof -
  from assms have "length p \<le> 63" by auto
  then show ?thesis
    using assms by (auto simp add: validate_def ss_isEmpty_def mkCredential_ssid mkCredential_password)
qed

section \<open>Credential store: guards\<close>

text \<open>
  Claim C8.  In every store state, initialized or not, \<^verbatim>\<open>getCredential\<close> and
  \<^verbatim>\<open>removeCredential\<close> with an empty SSID return \<open>INVALID_PARAMETER\<close> with the message
  "SSID cannot be empty" and leave the store (and the caller's credential object) as
  they were; the test comes before the initialization test, so an uninitialized store
  does not answer \<open>INVALID_STATE\<close>.
\<close>

theorem C8_empty_ssid_first:
  "getCredential st [] credential
     = (ACResult INVALID_PARAMETER ''SSID cannot be empty'', st, credential)
   \<and> removeCredential st [] = (ACResult INVALID_PARAMETER ''SSID cannot be empty'', st)
   \<and> error (fst (getCredential (st\<lparr>initialized := False\<rparr>) [] credential)) \<noteq> INVALID_STATE
   \<and> error (fst (removeCredential (st\<lparr>initialized := False\<rparr>) [])) \<noteq> INVALID_STATE"
  by (simp add: getCredential_def removeCredential_def)

text \<open>
  Claim C1 says that every operation but \<^verbatim>\<open>initialize\<close> fails with \<open>INVALID_STATE\<close> on a
  store that was never initialized.  On the store just constructed, \<^verbatim>\<open>clearAll\<close> and
  \<^verbatim>\<open>exportToJSON\<close> succeed, \<^verbatim>\<open>getAvailableSSIDs\<close> returns the empty vector, and the three
  guarded operations answer \<open>INVALID_PARAMETER\<close> when their argument is invalid.
\<close>

theorem C1_counterexample:
  "\<not> initialized (CredentialStore_new 10)
   \<and> clearAll (CredentialStore_new 10) = (ACResult SUCCESS [], CredentialStore_new 10)
   \<and> fst (exportToJSON (CredentialStore_new 10)) = ACResult SUCCESS []
   \<and> getAvailableSSIDs_returns (CredentialStore_new 10) []
   \<and> error (fst (removeCredential (CredentialStore_new 10) [])) = INVALID_PARAMETER
   \<and> error (fst (getCredential (CredentialStore_new 10) [] EnhancedCredential_new))
       = INVALID_PARAMETER
   \<and> map_option (error \<circ> fst) (addCredential (CredentialStore_new 10) EnhancedCredential_new)
       = Some INVALID_PARAMETER"
  by (simp add: CredentialStore_new_def clearAll_def saveCredentials_def exportToJSON_def
      getAvailableSSIDs_returns_def removeCredential_def getCredential_def addCredential_def
      validate_def ss_isEmpty_def EnhancedCredential_new_def SecureString_new_def isSuccess_def
      Let_def)

text \<open>
  Claim C1, amended.  On a store that is not initialized, \<^verbatim>\<open>addCredential\<close> with a
  credential that passes \<^verbatim>\<open>validate\<close>, and \<^verbatim>\<open>getCredential\<close> and \<^verbatim>\<open>removeCredential\<close> with
  a non-empty SSID, fail with \<open>INVALID_STATE\<close> and leave the store (and the caller's
  credential object) unchanged.  The argument is validated before the initialization
  test: on such a store \<^verbatim>\<open>addCredential\<close> with a credential that does not pass
  \<^verbatim>\<open>validate\<close> returns the result of \<^verbatim>\<open>validate\<close>, of kind \<open>INVALID_PARAMETER\<close>, and
  \<^verbatim>\<open>getCredential\<close> and \<^verbatim>\<open>removeCredential\<close> with an empty SSID return
  \<open>INVALID_PARAMETER\<close>, in each case with the store unchanged.
\<close>

theorem C1_uninitialized_guarded:
  assumes "\<not> initialized st"
  shows "(isSuccess (validate credential) \<longrightarrow>
            addCredential st credential
              = Some (ACResult INVALID_STATE ''Credential system not initialized'', st))
         \<and> (\<not> isSuccess (validate credential) \<longrightarrow>
            addCredential st credential = Some (validate credential, st)
            \<and> error (validate credential) = INVALID_PARAMETER)
         \<and> (s \<noteq> [] \<longrightarrow>
            getCredential st s out
              = (ACResult INVALID_STATE ''Credential system not initialized'', st, out)
            \<and> removeCredential st s
              = (ACResult INVALID_STATE ''Credential system not initialized'', st))
         \<and> getCredential st [] out
              = (ACResult INVALID_PARAMETER ''SSID cannot be empty'', st, out)
         \<and> removeCredential st []
              = (ACResult INVALID_PARAMETER ''SSID cannot be empty'', st)"
proof -
  have "error (validate credential) = INVALID_PARAMETER" if "\<not> isSuccess (validate credential)"
    using that by (simp add: validate_def isSuccess_def split: if_splits)
  with assms show ?thesis
    by (simp add: addCredential_def getCredential_def removeCredential_def Let_def)
qed

text \<open>
  The store just constructed, with a valid credential, with the default-constructed
  credential (its SSID is empty), with the SSID ''home'' and with the empty SSID.
\<close>

theorem C1_uninitialized_guarded_witness:
  "\<not> initialized (CredentialStore_new 10)
   \<and> isSuccess (validate (mkCredential ''home'' ''secret123'' 5))
   \<and> addCredential (CredentialStore_new 10) (mkCredential ''home'' ''secret123'' 5)
       = Some (ACResult INVALID_STATE ''Credential system not initialized'',
               CredentialStore_new 10)
   \<and> \<not> isSuccess (validate EnhancedCredential_new)
   \<and> addCredential (CredentialStore_new 10) EnhancedCredential_new
       = Some (ACResult INVALID_PARAMETER ''SSID cannot be empty'', CredentialStore_new 10)
   \<and> getCredential (CredentialStore_new 10) ''home'' EnhancedCredential_new
       = (ACResult INVALID_STATE ''Credential system not initialized'',
          CredentialStore_new 10, EnhancedCredential_new)
   \<and> removeCredential (CredentialStore_new 10) ''home''
       = (ACResult INVALID_STATE ''Credential system not initialized'', CredentialStore_new 10)
   \<and> getCredential (CredentialStore_new 10) [] EnhancedCredential_new
       = (ACResult INVALID_PARAMETER ''SSID cannot be empty'',
          CredentialStore_new 10, EnhancedCredential_new)
   \<and> removeCredential (CredentialStore_new 10) []
       = (ACResult INVALID_PARAMETER ''SSID cannot be empty'', CredentialStore_new 10)"
proof -
  have u: "\<not> initialized (CredentialStore_new 10)"
    by (simp add: CredentialStore_new_def)
  have v: "isSuccess (validate (mkCredential ''home'' ''secret123'' 5))"
    by (simp add: mkCredential_valid isSuccess_def)
  have e: "validate EnhancedCredential_new = ACResult INVALID_PARAMETER ''SSID cannot be empty''"
    by (simp add: validate_def ss_isEmpty_def EnhancedCredential_new_def SecureString_new_def)
  then have n: "\<not> isSuccess (validate EnhancedCredential_new)"
    by (simp add: isSuccess_def)
  from C1_uninitialized_guarded [OF u, of "mkCredential ''home'' ''secret123'' 5" "''home''"
      EnhancedCredential_new]
    C1_uninitialized_guarded [OF u, of EnhancedCredential_new "''home''" EnhancedCredential_new]
    u v n e
  show ?thesis by simp
qed

section \<open>Credential store: export\<close>

lemma replace_chr_append:
  "replace_chr f r (xs @ ys) = replace_chr f r xs @ replace_chr f r ys"
  by (induction xs) simp_all

lemma sanitizeHTML_Cons: "sanitizeHTML (c # cs) = html_escape_char c @ sanitizeHTML cs"
  by (simp add: sanitizeHTML_def html_escape_char_def replace_chr_append)

lemma sanitizeHTML_escape: "sanitizeHTML s = html_escape s"
proof (induction s)
  case Nil
  show ?case by (simp add: sanitizeHTML_def html_escape_def)
next
  case (Cons c cs)
  then show ?case by (simp add: sanitizeHTML_Cons html_escape_def)
qed

lemma html_escape_char_clean:
  "set (html_escape_char c) \<inter> {CHR ''<'', CHR ''>'', CHR 0x22, CHR 0x27} = {}"
  by (simp add: html_escape_char_def)

lemma html_escape_clean:
  "set (html_escape s) \<inter> {CHR ''<'', CHR ''>'', CHR 0x22, CHR 0x27} = {}"
  using html_escape_char_clean by (fastforce simp add: html_escape_def)

lemma html_escape_char_length: "length (html_escape_char c) \<le> 6"
  by (simp add: html_escape_char_def)

lemma html_escape_length: "length (html_escape s) \<le> 6 * length s"
proof (induction s)
  case Nil
  show ?case by (simp add: html_escape_def)
next
  case (Cons c cs)
  then show ?case
    using html_escape_char_length [of c] by (simp add: html_escape_def)
qed

lemma decimal_length: "n < 10 ^ k \<Longrightarrow> 0 < k \<Longrightarrow> length (decimal n) \<le> k"
proof (induction k arbitrary: n)
  case 0
  then show ?case by simp
next
  case (Suc k)
  show ?case
  proof (cases "n < 10")
    case True
    then show ?thesis by (simp add: decimal.simps [of n])
  next
    case False
    with Suc.prems have k: "0 < k" by (cases k) auto
    from Suc.prems have "n div 10 < 10 ^ k"
      by (simp add: less_mult_imp_div_less mult.commute)
    from Suc.IH [OF this k] False show ?thesis
      by (simp add: decimal.simps [of n])
  qed
qed

lemma decimal_u32_length: "length (decimal (unat (x :: u32))) \<le> 10"
proof -
  have "unat x < 2 ^ 32" using unsigned_less [of x, where ?'a = nat] by simp
  then have "unat x < 10 ^ 10" by simp
  then show ?thesis by (rule decimal_length) simp
qed


lemma export_entry_password: "export_entry json i (c\<lparr>password := p\<rparr>) = export_entry json i c"
  by (simp add: export_entry_def)

lemma export_loop_passwords:
  "length ps = length cs \<Longrightarrow>
   export_loop json i (map (\<lambda>(c, p). c\<lparr>password := p\<rparr>) (zip cs ps)) = export_loop json i cs"
proof (induction cs arbitrary: ps json i)
  case Nil
  then show ?case by simp
next
  case (Cons c cs)
  then obtain p ps' where ps: "ps = p # ps'" by (cases ps) auto
  with Cons.prems have "length ps' = length cs" by simp
  from Cons.IH [OF this] show ?case
    by (simp add: ps export_entry_password)
qed

lemma exportToJSON_passwords:
  "length ps = length (credentials st) \<Longrightarrow> exportToJSON (replace_passwords st ps) = exportToJSON st"
  by (simp add: exportToJSON_def replace_passwords_def export_loop_passwords)

lemma export_entry_text:
  assumes "length (ss_c_str (ssid c)) \<le> 32"
  shows "concat (export_entry json i c)
           = concat json @ (if i > 0 then '','' else []) @ snapshot_entry c"
proof -
  have "length (html_escape (ss_c_str (ssid c))) \<le> 6 * 32"
    using html_escape_length [of "ss_c_str (ssid c)"] assms by simp
  then have l1: "length (sanitizeHTML (ss_c_str (ssid c))) \<le> 192"
    by (simp add: sanitizeHTML_escape)
  note l2 = decimal_u32_length [of "timestamp c"]
  note l3 = decimal_u32_length [of "connectionCount c"]
  from l1 l2 l3 show ?thesis
    by (simp add: export_entry_def sb_append_def sb_appendFormat_def snapshot_entry_def
        json_key_def sanitizeHTML_escape Let_def)
qed

lemma export_loop_text:
  assumes "\<forall>c\<in>set cs. length (ss_c_str (ssid c)) \<le> 32"
  shows "concat (export_loop json i cs)
           = concat json @ (if cs = [] then [] else (if i > 0 then '','' else [])
                              @ join_with '','' (map snapshot_entry cs))"
  using assms
proof (induction cs arbitrary: json i)
  case Nil
  show ?case by simp
next
  case (Cons c cs)
  have c: "length (ss_c_str (ssid c)) \<le> 32" using Cons.prems by simp
  have rest: "\<forall>c\<in>set cs. length (ss_c_str (ssid c)) \<le> 32" using Cons.prems by simp
  show ?case
  proof (cases cs)
    case Nil
    then show ?thesis by (simp add: export_entry_text [OF c])
  next
    case (Cons d ds)
    with Cons.IH [OF rest, of "export_entry json i c" "Suc i"] show ?thesis
      by (simp add: export_entry_text [OF c])
  qed
qed

lemma exportToJSON_text:
  assumes "\<forall>c\<in>set (credentials st). length (ss_c_str (ssid c)) \<le> 32"
  shows "snd (exportToJSON st) = snapshot_text (credentials st)"
  using export_loop_text [OF assms, of "sb_append [] ([CHR ''{'', CHR 0x22] @ ''credentials'' @ [CHR 0x22] @ '':['')" 0]
  by (simp add: exportToJSON_def snapshot_text_def sb_toString_def sb_append_def json_key_def Let_def)

text \<open>
  Claim C5.  The text produced by \<^verbatim>\<open>exportToJSON\<close> does not depend on any password:
  replacing the password buffer of every entry by an arbitrary other one gives the
  same result and the same text.  For every store whose entries hold SSIDs of at most
  32 bytes (which every credential object guarantees, see C9) the text is the
  specification's snapshot: each entry has exactly the keys ssid, useStatic,
  timestamp, connectionCount, in this order.  The SSID is embedded after
  \<^verbatim>\<open>sanitizeHTML\<close>, which replaces each of the five characters ampersand, less-than,
  greater-than, double quote and single quote and leaves none of the last four behind.
\<close>

theorem C5_export_no_secrets:
  "(length ps = length (credentials st) \<longrightarrow>
      exportToJSON (replace_passwords st ps) = exportToJSON st)
   \<and> ((\<forall>c\<in>set (credentials st). length (ss_c_str (ssid c)) \<le> 32) \<longrightarrow>
      snd (exportToJSON st) = snapshot_text (credentials st))
   \<and> sanitizeHTML s = html_escape s
   \<and> set (sanitizeHTML s) \<inter> {CHR ''<'', CHR ''>'', CHR 0x22, CHR 0x27} = {}"
  using exportToJSON_passwords [of ps st] exportToJSON_text [of st]
    sanitizeHTML_escape [of s] html_escape_clean [of s]
  by simp


lemma cstring_demo: "cstring ''a<b&c'' = ''a<b&c''" "cstring ''net'' = ''net''"
  by (simp_all add: cstring_def NUL_def)

theorem C5_export_no_secrets_witness:
  \<open>length demo_passwords = length (credentials demo_store)
   \<and> exportToJSON (replace_passwords demo_store demo_passwords) = exportToJSON demo_store
   \<and> length (ss_c_str (ssid (mkCredential ''a<b&c'' ''password1'' 10))) \<le> 32
   \<and> length (ss_c_str (ssid (mkCredential ''net'' [] 20))) \<le> 32
   \<and> snd (exportToJSON demo_store)
       = ''{"credentials":[{"ssid":"a&lt;b&amp;c","useStatic":false,"timestamp":10,"connectionCount":0},{"ssid":"net","useStatic":false,"timestamp":20,"connectionCount":0}]}''
   \<and> sanitizeHTML ''a<b&c'' = ''a&lt;b&amp;c''\<close>
proof -
  have l: "length demo_passwords = length (credentials demo_store)"
    by (simp add: demo_passwords_def demo_store_def)
  have s: "ss_c_str (ssid (mkCredential ''a<b&c'' ''password1'' 10)) = ''a<b&c''"
    "ss_c_str (ssid (mkCredential ''net'' [] 20)) = ''net''"
    by (simp_all add: mkCredential_ssid cstring_demo)
  then have b: "\<forall>c\<in>set (credentials demo_store). length (ss_c_str (ssid c)) \<le> 32"
    by (simp add: demo_store_def)
  have e: "html_escape ''a<b&c'' = ''a&lt;b&amp;c''" "html_escape ''net'' = ''net''"
    by (simp_all add: html_escape_def html_escape_char_def)
  have d: "decimal 0 = ''0''" "decimal 10 = ''10''" "decimal 20 = ''20''"
    by (simp_all add: decimal.simps digit_char_def)
  have t: \<open>snapshot_text (credentials demo_store)
       = ''{"credentials":[{"ssid":"a&lt;b&amp;c","useStatic":false,"timestamp":10,"connectionCount":0},{"ssid":"net","useStatic":false,"timestamp":20,"connectionCount":0}]}''\<close>
    by (simp add: snapshot_text_def snapshot_entry_def json_key_def demo_store_def s e d
        mkCredential_fields)
  from C5_export_no_secrets [of demo_passwords demo_store "''a<b&c''"] l b s t e
  show ?thesis by simp
qed

section \<open>Credential store: capacity and eviction\<close>

lemma find_if_None_iff: "find_if p xs = None \<longleftrightarrow> (\<forall>x\<in>set xs. \<not> p x)"
  by (induction xs) (auto split: option.splits)

lemma find_if_Some: "find_if p xs = Some i \<Longrightarrow> i < length xs \<and> p (xs ! i)"
  by (induction xs arbitrary: i) (auto split: option.splits if_splits)

lemma min_element_loop_first_min:
  fixes f :: "'a \<Rightarrow> 'b::linorder"
  assumes "si < length pre" and "sv = pre ! si" and "i = length pre"
    and "\<forall>j<length pre. f sv \<le> f (pre ! j)" and "\<forall>j < si. f sv < f (pre ! j)"
  shows "min_element_loop (\<lambda>a b. f a < f b) si sv i xs < length (pre @ xs)
         \<and> (\<forall>j<length (pre @ xs).
               f ((pre @ xs) ! min_element_loop (\<lambda>a b. f a < f b) si sv i xs) \<le> f ((pre @ xs) ! j))
         \<and> (\<forall>j<min_element_loop (\<lambda>a b. f a < f b) si sv i xs.
               f ((pre @ xs) ! min_element_loop (\<lambda>a b. f a < f b) si sv i xs) < f ((pre @ xs) ! j))"
  using assms
proof (induction xs arbitrary: pre si sv i)
  case Nil
  then show ?case by simp
next
  case (Cons x xs)
  show ?case
  proof (cases "f x < f sv")
    case True
    have "min_element_loop (\<lambda>a b. f a < f b) i x (Suc i) xs < length ((pre @ [x]) @ xs)
         \<and> (\<forall>j<length ((pre @ [x]) @ xs).
               f (((pre @ [x]) @ xs) ! min_element_loop (\<lambda>a b. f a < f b) i x (Suc i) xs)
                 \<le> f (((pre @ [x]) @ xs) ! j))
         \<and> (\<forall>j<min_element_loop (\<lambda>a b. f a < f b) i x (Suc i) xs.
               f (((pre @ [x]) @ xs) ! min_element_loop (\<lambda>a b. f a < f b) i x (Suc i) xs)
                 < f (((pre @ [x]) @ xs) ! j))"
    proof (rule Cons.IH)
      show "i < length (pre @ [x])" using Cons.prems by simp
      show "x = (pre @ [x]) ! i" using Cons.prems by simp
      show "Suc i = length (pre @ [x])" using Cons.prems by simp
      show "\<forall>j<length (pre @ [x]). f x \<le> f ((pre @ [x]) ! j)"
        using Cons.prems True by (auto simp add: nth_append less_Suc_eq intro: less_imp_le order.strict_trans2)
      show "\<forall>j < i. f x < f ((pre @ [x]) ! j)"
        using Cons.prems True by (auto simp add: nth_append intro: order.strict_trans2)
    qed
    with True show ?thesis by simp
  next
    case False
    have "min_element_loop (\<lambda>a b. f a < f b) si sv (Suc i) xs < length ((pre @ [x]) @ xs)
         \<and> (\<forall>j<length ((pre @ [x]) @ xs).
               f (((pre @ [x]) @ xs) ! min_element_loop (\<lambda>a b. f a < f b) si sv (Suc i) xs)
                 \<le> f (((pre @ [x]) @ xs) ! j))
         \<and> (\<forall>j<min_element_loop (\<lambda>a b. f a < f b) si sv (Suc i) xs.
               f (((pre @ [x]) @ xs) ! min_element_loop (\<lambda>a b. f a < f b) si sv (Suc i) xs)
                 < f (((pre @ [x]) @ xs) ! j))"
    proof (rule Cons.IH)
      show "si < length (pre @ [x])" using Cons.prems by simp
      show "sv = (pre @ [x]) ! si" using Cons.prems by (simp add: nth_append)
      show "Suc i = length (pre @ [x])" using Cons.prems by simp
      show "\<forall>j<length (pre @ [x]). f sv \<le> f ((pre @ [x]) ! j)"
        using Cons.prems False by (auto simp add: nth_append less_Suc_eq)
      show "\<forall>j < si. f sv < f ((pre @ [x]) ! j)"
        using Cons.prems by (auto simp add: nth_append)
    qed
    with False show ?thesis by simp
  qed
qed

lemma min_element_first_min:
  fixes f :: "'a \<Rightarrow> 'b::linorder"
  assumes "xs \<noteq> []"
  shows "min_element (\<lambda>a b. f a < f b) xs < length xs
         \<and> (\<forall>j<length xs. f (xs ! min_element (\<lambda>a b. f a < f b) xs) \<le> f (xs ! j))
         \<and> (\<forall>j<min_element (\<lambda>a b. f a < f b) xs.
               f (xs ! min_element (\<lambda>a b. f a < f b) xs) < f (xs ! j))"
proof -
  from assms obtain x rest where xs: "xs = x # rest" by (cases xs) auto
  have "min_element_loop (\<lambda>a b. f a < f b) 0 x 1 rest < length ([x] @ rest)
         \<and> (\<forall>j<length ([x] @ rest).
               f (([x] @ rest) ! min_element_loop (\<lambda>a b. f a < f b) 0 x 1 rest) \<le> f (([x] @ rest) ! j))
         \<and> (\<forall>j<min_element_loop (\<lambda>a b. f a < f b) 0 x 1 rest.
               f (([x] @ rest) ! min_element_loop (\<lambda>a b. f a < f b) 0 x 1 rest) < f (([x] @ rest) ! j))"
    by (rule min_element_loop_first_min) simp_all
  then show ?thesis by (simp add: xs min_element_def)
qed


lemma saveCredentials_eq: "saveCredentials st = (ACResult SUCCESS [], st)"
  by (simp add: saveCredentials_def)

lemma no_match_iff:
  "find_if (same_ssid (ss_c_str (ssid c))) cs = None
     \<longleftrightarrow> ss_c_str (ssid c) \<notin> set (map (\<lambda>d. ss_c_str (ssid d)) cs)"
  by (force simp add: find_if_None_iff same_ssid_iff image_iff)

lemma addCredential_append:
  assumes "initialized st" and "isSuccess (validate c)"
    and "find_if (same_ssid (ss_c_str (ssid c))) (credentials st) = None"
    and "length (credentials st) < maxCredentials st"
  shows "addCredential st c = Some (ACResult SUCCESS [], st\<lparr>credentials := credentials st @ [c]\<rparr>)"
  using assms by (simp add: addCredential_def saveCredentials_eq Let_def)

lemma addCredential_evict:
  assumes "initialized st" and "isSuccess (validate c)"
    and "find_if (same_ssid (ss_c_str (ssid c))) (credentials st) = None"
    and "maxCredentials st \<le> length (credentials st)" and "credentials st \<noteq> []"
  shows "addCredential st c
           = Some (ACResult SUCCESS [],
                   st\<lparr>credentials :=
                        take (min_element (\<lambda>a b. timestamp a < timestamp b) (credentials st))
                          (credentials st)
                        @ drop (Suc (min_element (\<lambda>a b. timestamp a < timestamp b) (credentials st)))
                            (credentials st)
                        @ [c]\<rparr>)"
proof -
  have "min_element (\<lambda>a b. timestamp a < timestamp b) (credentials st) < length (credentials st)"
    using min_element_first_min [OF assms(5), of timestamp] by simp
  with assms show ?thesis
    by (simp add: addCredential_def saveCredentials_eq erase_def Let_def)
qed

lemma addCredential_size:
  assumes "1 \<le> maxCredentials st" and "length (credentials st) \<le> maxCredentials st"
  shows "\<exists>r st'. addCredential st c = Some (r, st')
           \<and> length (credentials st') \<le> maxCredentials st'
           \<and> maxCredentials st' = maxCredentials st \<and> initialized st' = initialized st"
proof (cases "isSuccess (validate c) \<and> initialized st")
  case False
  with assms show ?thesis by (auto simp add: addCredential_def Let_def)
next
  case ok: True
  show ?thesis
  proof (cases "find_if (same_ssid (ss_c_str (ssid c))) (credentials st)")
    case (Some it)
    with ok assms show ?thesis
      by (simp add: addCredential_def saveCredentials_eq Let_def)
  next
    case None
    show ?thesis
    proof (cases "length (credentials st) < maxCredentials st")
      case True
      with addCredential_append [of st c] ok None show ?thesis by simp
    next
      case False
      with assms have ne: "credentials st \<noteq> []" and full: "maxCredentials st \<le> length (credentials st)"
        by auto
      have "min_element (\<lambda>a b. timestamp a < timestamp b) (credentials st) < length (credentials st)"
        using min_element_first_min [OF ne, of timestamp] by simp
      with addCredential_evict [of st c] ok None ne full assms show ?thesis by auto
    qed
  qed
qed

lemma addCredentials_append:
  "addCredentials st (xs @ ys)
     = (case addCredentials st xs of
          None \<Rightarrow> None
        | Some (rs, st1) \<Rightarrow>
            (case addCredentials st1 ys of
               None \<Rightarrow> None
             | Some (rs', st2) \<Rightarrow> Some (rs @ rs', st2)))"
  by (induction xs arbitrary: st) (auto split: option.splits)

lemma addCredentials_fill:
  assumes "initialized st"
    and "\<forall>c\<in>set cs. isSuccess (validate c)"
    and "distinct (map (\<lambda>c. ss_c_str (ssid c)) (credentials st @ cs))"
    and "length (credentials st) + length cs \<le> maxCredentials st"
  shows "addCredentials st cs
           = Some (replicate (length cs) (ACResult SUCCESS []),
                   st\<lparr>credentials := credentials st @ cs\<rparr>)"
  using assms
proof (induction cs arbitrary: st)
  case Nil
  then show ?case by simp
next
  case (Cons c cs)
  let ?st1 = "st\<lparr>credentials := credentials st @ [c]\<rparr>"
  have nomatch: "find_if (same_ssid (ss_c_str (ssid c))) (credentials st) = None"
    using Cons.prems(3) by (auto simp add: no_match_iff)
  have step: "addCredential st c = Some (ACResult SUCCESS [], ?st1)"
    using Cons.prems nomatch by (intro addCredential_append) simp_all
  have "addCredentials ?st1 cs
          = Some (replicate (length cs) (ACResult SUCCESS []),
                  ?st1\<lparr>credentials := credentials ?st1 @ cs\<rparr>)"
    using Cons.prems by (intro Cons.IH) simp_all
  with step show ?case by simp
qed

lemma addCredentials_size:
  assumes "1 \<le> maxCredentials st" and "length (credentials st) \<le> maxCredentials st"
  shows "\<exists>rs st'. addCredentials st cs = Some (rs, st')
           \<and> length (credentials st') \<le> maxCredentials st \<and> maxCredentials st' = maxCredentials st"
  using assms
proof (induction cs arbitrary: st)
  case Nil
  then show ?case by simp
next
  case (Cons c cs)
  from addCredential_size [OF Cons.prems, of c] obtain r st1
    where s1: "addCredential st c = Some (r, st1)"
      and l1: "length (credentials st1) \<le> maxCredentials st1"
      and m1: "maxCredentials st1 = maxCredentials st"
    by blast
  from Cons.prems m1 have "1 \<le> maxCredentials st1" by simp
  from Cons.IH [OF this l1] obtain rs st2
    where "addCredentials st1 cs = Some (rs, st2)"
      and "length (credentials st2) \<le> maxCredentials st1"
      and "maxCredentials st2 = maxCredentials st1"
    by blast
  with s1 m1 show ?case by simp
qed

lemma initialized_store_fields:
  "initialized (initialized_store n)" "credentials (initialized_store n) = []"
  "maxCredentials (initialized_store n) = n"
  by (simp_all add: initialized_store_def initialize_def CredentialStore_new_def
      loadExistingCredentials_def)

text \<open>
  Claim C4.  Take a store of capacity \<open>n\<close>, at least 1 as the specification's data model
  requires, initialized and empty, and add \<open>n + 1\<close> credentials that pass \<^verbatim>\<open>validate\<close>
  and have pairwise distinct SSIDs.  All calls succeed and exactly \<open>n\<close> entries are
  left: the first \<open>n\<close> credentials without the one at the position that
  \<^verbatim>\<open>std::min_element\<close> returns, followed by the last credential.  The evicted position
  holds a smallest timestamp of the store at that moment, and every entry before it
  has a strictly larger timestamp, so ties go to the first entry in store order.
  After every prefix of the calls the store holds at most \<open>n\<close> entries; and one call of
  \<^verbatim>\<open>addCredential\<close> on any store within its capacity leaves it within its capacity.
\<close>

theorem C4_capacity_eviction:
  assumes "1 \<le> n" and "length cs = n"
    and "\<forall>c\<in>set (cs @ [c']). isSuccess (validate c)"
    and "distinct (map (\<lambda>c. ss_c_str (ssid c)) (cs @ [c']))"
  shows "addCredentials (initialized_store n) (cs @ [c'])
           = Some (replicate (Suc n) (ACResult SUCCESS []),
                   (initialized_store n)
                     \<lparr>credentials :=
                        take (min_element (\<lambda>a b. timestamp a < timestamp b) cs) cs
                        @ drop (Suc (min_element (\<lambda>a b. timestamp a < timestamp b) cs)) cs
                        @ [c']\<rparr>)
         \<and> length (take (min_element (\<lambda>a b. timestamp a < timestamp b) cs) cs
                   @ drop (Suc (min_element (\<lambda>a b. timestamp a < timestamp b) cs)) cs
                   @ [c']) = n
         \<and> min_element (\<lambda>a b. timestamp a < timestamp b) cs < n
         \<and> (\<forall>j < n. timestamp (cs ! min_element (\<lambda>a b. timestamp a < timestamp b) cs)
                        \<le> timestamp (cs ! j))
         \<and> (\<forall>j < min_element (\<lambda>a b. timestamp a < timestamp b) cs.
                timestamp (cs ! min_element (\<lambda>a b. timestamp a < timestamp b) cs)
                  < timestamp (cs ! j))
         \<and> (\<forall>k \<le> Suc n. \<exists>rs st'.
                addCredentials (initialized_store n) (take k (cs @ [c'])) = Some (rs, st')
                \<and> length (credentials st') \<le> n)
         \<and> (1 \<le> maxCredentials st \<and> length (credentials st) \<le> maxCredentials st \<longrightarrow>
              (\<exists>r st'. addCredential st c = Some (r, st')
                 \<and> length (credentials st') \<le> maxCredentials st'
                 \<and> maxCredentials st' = maxCredentials st))"
proof -
  let ?st0 = "initialized_store n"
  let ?m = "min_element (\<lambda>a b. timestamp a < timestamp b) cs"
  let ?st1 = "?st0\<lparr>credentials := cs\<rparr>"
  from assms have ne: "cs \<noteq> []" by auto
  note m = min_element_first_min [OF ne, of timestamp]
  have fill: "addCredentials ?st0 cs = Some (replicate n (ACResult SUCCESS []), ?st1)"
    using addCredentials_fill [of ?st0 cs] assms by (simp add: initialized_store_fields)
  have nomatch: "find_if (same_ssid (ss_c_str (ssid c'))) (credentials ?st1) = None"
    using assms(4) by (auto simp add: no_match_iff)
  have last: "addCredential ?st1 c'
          = Some (ACResult SUCCESS [], ?st0\<lparr>credentials := take ?m cs @ drop (Suc ?m) cs @ [c']\<rparr>)"
    using addCredential_evict [of ?st1 c'] assms nomatch ne
    by (simp add: initialized_store_fields)
  have run: "addCredentials ?st0 (cs @ [c'])
          = Some (replicate (Suc n) (ACResult SUCCESS []),
                  ?st0\<lparr>credentials := take ?m cs @ drop (Suc ?m) cs @ [c']\<rparr>)"
    by (simp add: addCredentials_append fill last replicate_append_same)
  have len: "length (take ?m cs @ drop (Suc ?m) cs @ [c']) = n"
    using m assms(2) by auto
  have prefixes: "\<forall>k \<le> Suc n. \<exists>rs st'.
      addCredentials ?st0 (take k (cs @ [c'])) = Some (rs, st') \<and> length (credentials st') \<le> n"
  proof (intro allI impI)
    fix k
    from addCredentials_size [of ?st0 "take k (cs @ [c'])"] assms(1)
    show "\<exists>rs st'. addCredentials ?st0 (take k (cs @ [c'])) = Some (rs, st')
            \<and> length (credentials st') \<le> n"
      by (auto simp add: initialized_store_fields)
  qed
  have step: "1 \<le> maxCredentials st \<and> length (credentials st) \<le> maxCredentials st \<longrightarrow>
      (\<exists>r st'. addCredential st c = Some (r, st')
         \<and> length (credentials st') \<le> maxCredentials st'
         \<and> maxCredentials st' = maxCredentials st)"
    using addCredential_size [of st c] by blast
  from run len m prefixes step assms(2) show ?thesis by simp
qed

text \<open>
  With capacity 0 the first insertion asks \<^verbatim>\<open>std::min_element\<close> for the oldest entry of an
  empty vector and erases the end iterator.
\<close>

lemma addCredential_capacity_zero:
  assumes "isSuccess (validate c)"
  shows "addCredential (initialized_store 0) c = None"
  using assms
  by (simp add: addCredential_def initialized_store_fields min_element_def erase_def Let_def)

text \<open>Capacity 2 and timestamps 30, 10, 20: the entry with timestamp 10 is evicted.\<close>

theorem C4_capacity_eviction_witness:
  "(1::nat) \<le> 2
   \<and> length [mkCredential ''alpha'' ''password1'' 30, mkCredential ''beta'' [] 10] = 2
   \<and> isSuccess (validate (mkCredential ''alpha'' ''password1'' 30))
   \<and> isSuccess (validate (mkCredential ''beta'' [] 10))
   \<and> isSuccess (validate (mkCredential ''gamma'' ''password3'' 20))
   \<and> distinct (map (\<lambda>c. ss_c_str (ssid c))
         [mkCredential ''alpha'' ''password1'' 30, mkCredential ''beta'' [] 10,
          mkCredential ''gamma'' ''password3'' 20])
   \<and> addCredentials (initialized_store 2)
         [mkCredential ''alpha'' ''password1'' 30, mkCredential ''beta'' [] 10,
          mkCredential ''gamma'' ''password3'' 20]
       = Some ([ACResult SUCCESS [], ACResult SUCCESS [], ACResult SUCCESS []],
               (initialized_store 2)
                 \<lparr>credentials := [mkCredential ''alpha'' ''password1'' 30,
                                   mkCredential ''gamma'' ''password3'' 20]\<rparr>)
   \<and> min_element (\<lambda>a b. timestamp a < timestamp b)
         [mkCredential ''alpha'' ''password1'' 30, mkCredential ''beta'' [] 10] = 1"
proof -
  let ?a = "mkCredential ''alpha'' ''password1'' 30"
  let ?b = "mkCredential ''beta'' [] 10"
  let ?g = "mkCredential ''gamma'' ''password3'' 20"
  have v: "isSuccess (validate ?a)" "isSuccess (validate ?b)" "isSuccess (validate ?g)"
    by (simp_all add: mkCredential_valid isSuccess_def)
  have s: "ss_c_str (ssid ?a) = ''alpha''" "ss_c_str (ssid ?b) = ''beta''"
    "ss_c_str (ssid ?g) = ''gamma''"
    by (simp_all add: mkCredential_ssid cstring_def NUL_def)
  have d: "distinct (map (\<lambda>c. ss_c_str (ssid c)) ([?a, ?b] @ [?g]))"
    by (simp add: s)
  have m: "min_element (\<lambda>a b. timestamp a < timestamp b) [?a, ?b] = 1"
    by (simp add: min_element_def mkCredential_fields)
  have h: "\<forall>c\<in>set ([?a, ?b] @ [?g]). isSuccess (validate c)"
    using v by simp
  from C4_capacity_eviction [of 2 "[?a, ?b]" ?g, OF _ _ h d] v d m
  show ?thesis by (simp add: numeral_2_eq_2)
qed

section \<open>Connection orchestrator\<close>

lemma beginWithResult_eq:
  "beginWithResult radio w (Some (nc_ssid cfg)) (Some (nc_password cfg)) (connectionTimeoutMs cfg)
     = (attempt_result cfg (radio (calls w)),
        w\<lparr>calls := Suc (calls w), clock := clock w + ao_duration (radio (calls w))\<rparr>)"
  by (simp add: beginWithResult_def attempt_result_def Let_def)

lemma retry_loop_exit:
  assumes "\<not> (retries < maxRetries cfg \<and> \<not> isExpired tmo (clock w))"
  shows "retry_loop radio cfg tmo retries w
           = (ACResult WIFI_CONNECT_FAILED
                (''Failed to connect after '' @ decimal (unat retries) @ '' attempts''), w)"
  using assms by (subst retry_loop.simps) auto

lemma retry_loop_success:
  assumes "retries < maxRetries cfg" and "\<not> isExpired tmo (clock w)"
    and "isSuccess (attempt_result cfg (radio (calls w)))"
  shows "retry_loop radio cfg tmo retries w
           = (attempt_result cfg (radio (calls w)),
              w\<lparr>calls := Suc (calls w), clock := clock w + ao_duration (radio (calls w))\<rparr>)"
  using assms by (subst retry_loop.simps) (simp add: beginWithResult_eq)

lemma retry_loop_retry:
  assumes "retries < maxRetries cfg" and "\<not> isExpired tmo (clock w)"
    and "\<not> isSuccess (attempt_result cfg (radio (calls w)))"
  shows "retry_loop radio cfg tmo retries w
           = retry_loop radio cfg tmo (retries + 1)
               (w\<lparr>calls := Suc (calls w),
                   clock := clock w + ao_duration (radio (calls w))
                             + (if retries + 1 < maxRetries cfg then 1000 else 0)\<rparr>)"
  using assms by (subst retry_loop.simps) (simp add: beginWithResult_eq delay_def Let_def)

lemma unat_retries_Suc:
  fixes retries :: u8
  assumes "retries < m"
  shows "unat (retries + 1) = Suc (unat retries)"
proof -
  from assms have "unat retries < unat m" by (simp add: word_less_nat_alt)
  moreover have "unat m < 256" using unsigned_less [of m, where ?'a = nat] by simp
  ultimately have "unat retries + 1 < 256" by simp
  then show ?thesis by (simp add: unat_word_ariths)
qed

lemma retry_loop_cases:
  assumes "retry_loop radio cfg tmo retries w = (res, w')"
  shows "calls w \<le> calls w' \<and> store w' = store w
         \<and> ((isSuccess res \<and> calls w < calls w'
              \<and> res = attempt_result cfg (radio (calls w' - 1))
              \<and> (\<forall>i. calls w \<le> i \<and> i < calls w' - 1
                    \<longrightarrow> \<not> isSuccess (attempt_result cfg (radio i))))
            \<or> (res = ACResult WIFI_CONNECT_FAILED
                       (''Failed to connect after ''
                        @ decimal (unat retries + (calls w' - calls w)) @ '' attempts'')
                \<and> (\<forall>i. calls w \<le> i \<and> i < calls w'
                      \<longrightarrow> \<not> isSuccess (attempt_result cfg (radio i)))
                \<and> (retries \<le> maxRetries cfg
                      \<longrightarrow> unat retries + (calls w' - calls w) \<le> unat (maxRetries cfg))))"
  using assms
proof (induction radio cfg tmo retries w rule: retry_loop.induct)
  case (1 radio cfg tmo retries w)
  show ?case
  proof (cases "retries < maxRetries cfg \<and> \<not> isExpired tmo (clock w)")
    case False
    with "1.prems" retry_loop_exit [of retries cfg tmo w radio] show ?thesis
      by (auto simp add: word_le_nat_alt)
  next
    case cond: True
    let ?w1 = "w\<lparr>calls := Suc (calls w), clock := clock w + ao_duration (radio (calls w))\<rparr>"
    show ?thesis
    proof (cases "isSuccess (attempt_result cfg (radio (calls w)))")
      case True
      with cond "1.prems" retry_loop_success [of retries cfg tmo w radio] show ?thesis
        by auto
    next
      case False
      let ?w2 = "w\<lparr>calls := Suc (calls w),
                   clock := clock w + ao_duration (radio (calls w))
                             + (if retries + 1 < maxRetries cfg then 1000 else 0)\<rparr>"
      have w2: "?w2 = (if retries + 1 < maxRetries cfg then delay ?w1 1000 else ?w1)"
        by (simp add: delay_def)
      have rec: "retry_loop radio cfg tmo (retries + 1) ?w2 = (res, w')"
        using retry_loop_retry [of retries cfg tmo w radio] cond False "1.prems" by simp
      have u: "unat (retries + 1) = Suc (unat retries)"
        using cond by (intro unat_retries_Suc [of retries "maxRetries cfg"]) simp
      have le: "retries + 1 \<le> maxRetries cfg"
        using cond u by (simp add: word_le_nat_alt word_less_nat_alt)
      have IH: "calls ?w2 \<le> calls w' \<and> store w' = store ?w2
         \<and> ((isSuccess res \<and> calls ?w2 < calls w'
              \<and> res = attempt_result cfg (radio (calls w' - 1))
              \<and> (\<forall>i. calls ?w2 \<le> i \<and> i < calls w' - 1
                    \<longrightarrow> \<not> isSuccess (attempt_result cfg (radio i))))
            \<or> (res = ACResult WIFI_CONNECT_FAILED
                       (''Failed to connect after ''
                        @ decimal (unat (retries + 1) + (calls w' - calls ?w2)) @ '' attempts'')
                \<and> (\<forall>i. calls ?w2 \<le> i \<and> i < calls w'
                      \<longrightarrow> \<not> isSuccess (attempt_result cfg (radio i)))
                \<and> (retries + 1 \<le> maxRetries cfg
                      \<longrightarrow> unat (retries + 1) + (calls w' - calls ?w2) \<le> unat (maxRetries cfg))))"
      proof (rule "1.IH" [of _ "attempt_result cfg (radio (calls w))" ?w1 "retries + 1" ?w2])
        show "retries < maxRetries cfg \<and> \<not> isExpired tmo (clock w)" by (rule cond)
        show "beginWithResult radio w (Some (nc_ssid cfg)) (Some (nc_password cfg))
                (connectionTimeoutMs cfg)
              = beginWithResult radio w (Some (nc_ssid cfg)) (Some (nc_password cfg))
                  (connectionTimeoutMs cfg)" by (rule refl)
        show "(attempt_result cfg (radio (calls w)), ?w1)
              = beginWithResult radio w (Some (nc_ssid cfg)) (Some (nc_password cfg))
                  (connectionTimeoutMs cfg)" by (simp add: beginWithResult_eq)
        show "\<not> isSuccess (attempt_result cfg (radio (calls w)))" by (rule False)
        show "retries + 1 = retries + 1" by (rule refl)
        show "?w2 = (if retries + 1 < maxRetries cfg then delay ?w1 1000 else ?w1)" by (rule w2)
        show "retry_loop radio cfg tmo (retries + 1) ?w2 = (res, w')" by (rule rec)
      qed
      from IH have c: "Suc (calls w) \<le> calls w'" and s: "store w' = store w" by simp_all
      from c have eq: "unat (retries + 1) + (calls w' - Suc (calls w))
                         = unat retries + (calls w' - calls w)"
        using u by simp
      have first: "\<And>i. calls w \<le> i \<Longrightarrow> i < Suc (calls w) \<Longrightarrow> \<not> isSuccess (attempt_result cfg (radio i))"
        using False by (simp add: less_Suc_eq_le)
      from IH show ?thesis
      proof (elim conjE disjE)
        assume ok: "isSuccess res" and lt: "calls ?w2 < calls w'"
          and r: "res = attempt_result cfg (radio (calls w' - 1))"
          and b: "\<forall>i. calls ?w2 \<le> i \<and> i < calls w' - 1
                    \<longrightarrow> \<not> isSuccess (attempt_result cfg (radio i))"
        have all: "\<forall>i. calls w \<le> i \<and> i < calls w' - 1
                    \<longrightarrow> \<not> isSuccess (attempt_result cfg (radio i))"
        proof (intro allI impI)
          fix i
          assume i: "calls w \<le> i \<and> i < calls w' - 1"
          show "\<not> isSuccess (attempt_result cfg (radio i))"
          proof (cases "i = calls w")
            case True
            with False show ?thesis by simp
          next
            case False
            with i have "calls ?w2 \<le> i \<and> i < calls w' - 1" by simp
            with b show ?thesis by blast
          qed
        qed
        from lt have "calls w < calls w'" by simp
        with c s ok r all show ?thesis by (intro conjI disjI1) simp_all
      next
        assume a: "res = ACResult WIFI_CONNECT_FAILED
                       (''Failed to connect after ''
                        @ decimal (unat (retries + 1) + (calls w' - calls ?w2)) @ '' attempts'')"
          and b: "\<forall>i. calls ?w2 \<le> i \<and> i < calls w' \<longrightarrow> \<not> isSuccess (attempt_result cfg (radio i))"
          and d: "retries + 1 \<le> maxRetries cfg
                      \<longrightarrow> unat (retries + 1) + (calls w' - calls ?w2) \<le> unat (maxRetries cfg)"
        have all: "\<forall>i. calls w \<le> i \<and> i < calls w'
                    \<longrightarrow> \<not> isSuccess (attempt_result cfg (radio i))"
        proof (intro allI impI)
          fix i
          assume i: "calls w \<le> i \<and> i < calls w'"
          show "\<not> isSuccess (attempt_result cfg (radio i))"
          proof (cases "i = calls w")
            case True
            with False show ?thesis by simp
          next
            case False
            with i have "calls ?w2 \<le> i \<and> i < calls w'" by simp
            with b show ?thesis by blast
          qed
        qed
        from a eq have a': "res = ACResult WIFI_CONNECT_FAILED
                       (''Failed to connect after ''
                        @ decimal (unat retries + (calls w' - calls w)) @ '' attempts'')"
          by simp
        from d le eq have d': "unat retries + (calls w' - calls w) \<le> unat (maxRetries cfg)"
          by simp
        from c have "calls w \<le> calls w'" by simp
        with s a' all d' show ?thesis by (intro conjI disjI2 impI) simp_all
      qed
    qed
  qed
qed


lemma prepare_keeps:
  "calls (snd (connectToWiFi_prepare w cfg)) = calls w"
  "store (snd (connectToWiFi_prepare w cfg)) = store w"
  "clock (snd (connectToWiFi_prepare w cfg)) = clock w"
  by (simp_all add: connectToWiFi_prepare_def setHostname_def setStaticIP_def setDNS_def Let_def)

lemma prepare_timeout_range:
  assumes "isSuccess (fst (connectToWiFi_prepare w cfg))"
  shows "5000 \<le> connectionTimeoutMs cfg" and "connectionTimeoutMs cfg \<le> 300000"
proof -
  have "isSuccess (nc_validate cfg)"
  proof (rule ccontr)
    assume "\<not> isSuccess (nc_validate cfg)"
    with assms show False by (simp add: connectToWiFi_prepare_def Let_def)
  qed
  then have "\<not> (connectionTimeoutMs cfg < 5000 \<or> connectionTimeoutMs cfg > 300000)"
    by (auto simp add: nc_validate_def isSuccess_def split: if_splits)
  then show "5000 \<le> connectionTimeoutMs cfg" and "connectionTimeoutMs cfg \<le> 300000"
    by (simp_all add: not_less)
qed

lemma connectToWiFi_unfold:
  "connectToWiFi radio w cfg
     = (if \<not> isSuccess (fst (connectToWiFi_prepare w cfg)) then connectToWiFi_prepare w cfg
        else retry_loop radio cfg
               (TimeoutHelper_new (clock w) (connectionTimeoutMs cfg)) 0
               (snd (connectToWiFi_prepare w cfg)))"
  by (simp add: connectToWiFi_def prepare_keeps split_beta Let_def)

lemma not_expired_at_start:
  assumes "5000 \<le> tmo"
  shows "\<not> isExpired (TimeoutHelper_new now tmo) now"
proof -
  have "(0::ulong) < 5000" by simp
  from this assms have "0 < tmo" by (rule less_le_trans)
  then show ?thesis by (simp add: isExpired_def TimeoutHelper_new_def not_le)
qed

lemma connectToWiFi_cases:
  assumes "connectToWiFi radio w cfg = (res, w')"
  shows "calls w \<le> calls w' \<and> store w' = store w
         \<and> (if \<not> isSuccess (fst (connectToWiFi_prepare w cfg))
            then res = fst (connectToWiFi_prepare w cfg) \<and> calls w' = calls w
            else (isSuccess res \<and> calls w < calls w'
                  \<and> res = attempt_result cfg (radio (calls w' - 1))
                  \<and> (\<forall>i. calls w \<le> i \<and> i < calls w' - 1
                        \<longrightarrow> \<not> isSuccess (attempt_result cfg (radio i))))
               \<or> (res = ACResult WIFI_CONNECT_FAILED
                           (''Failed to connect after ''
                            @ decimal (calls w' - calls w) @ '' attempts'')
                    \<and> (\<forall>i. calls w \<le> i \<and> i < calls w'
                          \<longrightarrow> \<not> isSuccess (attempt_result cfg (radio i)))
                    \<and> calls w' - calls w \<le> unat (maxRetries cfg)))"
proof (cases "isSuccess (fst (connectToWiFi_prepare w cfg))")
  case False
  with assms have "connectToWiFi_prepare w cfg = (res, w')"
    by (simp add: connectToWiFi_unfold)
  with False prepare_keeps [of w cfg] show ?thesis by simp
next
  case True
  let ?w0 = "snd (connectToWiFi_prepare w cfg)"
  from True assms have "retry_loop radio cfg
      (TimeoutHelper_new (clock w) (connectionTimeoutMs cfg)) 0 ?w0 = (res, w')"
    by (simp add: connectToWiFi_unfold)
  from retry_loop_cases [OF this] True show ?thesis
    by (simp add: prepare_keeps)
qed

text \<open>
  Claim C2, amended.  In every connection sequence in which some attempt that was made
  succeeds, \<^verbatim>\<open>connectToWiFi\<close> returns success, namely the result of the last call of
  \<^verbatim>\<open>beginWithResult\<close> it made; and it leaves the credential store as it was: no
  credential's \<open>connectionCount\<close> or \<open>timestamp\<close> changes and nothing is saved.
  The attempts made are the calls numbered from \<open>calls w\<close> up to, not including,
  \<open>calls w'\<close>.
\<close>

theorem C2_success_store_untouched:
  assumes "connectToWiFi radio w cfg = (res, w')"
    and "\<exists>i. calls w \<le> i \<and> i < calls w' \<and> isSuccess (attempt_result cfg (radio i))"
  shows "isSuccess res \<and> res = attempt_result cfg (radio (calls w' - 1)) \<and> store w' = store w"
proof -
  from assms(2) obtain i where i: "calls w \<le> i" "i < calls w'"
    "isSuccess (attempt_result cfg (radio i))" by blast
  note c = connectToWiFi_cases [OF assms(1)]
  from i have ne: "calls w' \<noteq> calls w" by simp
  with c have p: "isSuccess (fst (connectToWiFi_prepare w cfg))" by (auto split: if_splits)
  from c p i have "isSuccess res \<and> res = attempt_result cfg (radio (calls w' - 1))"
    by auto
  moreover from c have "store w' = store w" by simp
  ultimately show ?thesis by blast
qed

text \<open>
  Claim C3, amended.  The code has one value, \<open>connectionTimeoutMs\<close>, that serves both as
  the per-attempt timeout and as the overall budget.  Whenever the retry loop is
  entered and the sequence fails, whether the budget or the retry count ended it, the
  error kind is \<open>WIFI_CONNECT_FAILED\<close>, never \<open>WIFI_TIMEOUT\<close>, and the message reports
  the number of attempts made.  In particular with \<open>maxRetries = 5\<close>,
  \<open>connectionTimeoutMs = 10000\<close> and a first attempt that fails after 10000 ms, the
  result is \<open>WIFI_CONNECT_FAILED\<close> after exactly 1 attempt, not 5.
\<close>

theorem C3_failure_kind:
  assumes "connectToWiFi radio w cfg = (res, w')"
    and "isSuccess (fst (connectToWiFi_prepare w cfg))"
  shows "(\<not> isSuccess res \<longrightarrow>
            res = ACResult WIFI_CONNECT_FAILED
                    (''Failed to connect after '' @ decimal (calls w' - calls w) @ '' attempts'')
            \<and> error res \<noteq> WIFI_TIMEOUT
            \<and> calls w' - calls w \<le> unat (maxRetries cfg))
         \<and> (maxRetries cfg = 5 \<and> connectionTimeoutMs cfg = 10000
              \<and> ao_duration (radio (calls w)) = 10000
              \<and> \<not> isSuccess (attempt_result cfg (radio (calls w)))
            \<longrightarrow> res = ACResult WIFI_CONNECT_FAILED ''Failed to connect after 1 attempts''
                \<and> calls w' = calls w + 1)"
proof (rule conjI; rule impI)
  note c = connectToWiFi_cases [OF assms(1)]
  assume "\<not> isSuccess res"
  with c assms(2) show
    "res = ACResult WIFI_CONNECT_FAILED
             (''Failed to connect after '' @ decimal (calls w' - calls w) @ '' attempts'')
     \<and> error res \<noteq> WIFI_TIMEOUT \<and> calls w' - calls w \<le> unat (maxRetries cfg)"
    by auto
next
  let ?w0 = "snd (connectToWiFi_prepare w cfg)"
  let ?t = "TimeoutHelper_new (clock w) (connectionTimeoutMs cfg)"
  assume s: "maxRetries cfg = 5 \<and> connectionTimeoutMs cfg = 10000
              \<and> ao_duration (radio (calls w)) = 10000
              \<and> \<not> isSuccess (attempt_result cfg (radio (calls w)))"
  have run: "retry_loop radio cfg ?t 0 ?w0 = (res, w')"
    using assms by (simp add: connectToWiFi_unfold)
  have ne: "\<not> isExpired ?t (clock ?w0)"
    using prepare_timeout_range [OF assms(2)] by (simp add: prepare_keeps not_expired_at_start)
  let ?w1 = "?w0\<lparr>calls := Suc (calls ?w0),
                  clock := clock ?w0 + ao_duration (radio (calls ?w0))
                            + (if (0::u8) + 1 < maxRetries cfg then 1000 else 0)\<rparr>"
  have step: "retry_loop radio cfg ?t 0 ?w0 = retry_loop radio cfg ?t (0 + 1) ?w1"
    using s ne by (intro retry_loop_retry) (simp_all add: prepare_keeps)
  have ex: "isExpired ?t (clock ?w1)"
    using s by (simp add: isExpired_def TimeoutHelper_new_def prepare_keeps)
  have "retry_loop radio cfg ?t (0 + 1) ?w1
          = (ACResult WIFI_CONNECT_FAILED
               (''Failed to connect after '' @ decimal (unat (0 + 1 :: u8)) @ '' attempts''), ?w1)"
    using ex by (intro retry_loop_exit) simp
  with step run have "res = ACResult WIFI_CONNECT_FAILED
               (''Failed to connect after '' @ decimal (unat (0 + 1 :: u8)) @ '' attempts'')"
    and "w' = ?w1" by simp_all
  then show "res = ACResult WIFI_CONNECT_FAILED ''Failed to connect after 1 attempts''
                \<and> calls w' = calls w + 1"
    by (simp add: decimal.simps digit_char_def prepare_keeps)
qed


lemma not_expired_after:
  fixes now e tmo :: ulong
  assumes "e < tmo"
  shows "\<not> isExpired (TimeoutHelper_new now tmo) (now + e)"
  using assms by (simp add: isExpired_def TimeoutHelper_new_def not_le)

text \<open>
  Three calls of \<^verbatim>\<open>beginWithResult\<close> whose results are failures, within the budget.
\<close>

lemma three_failing_results:
  assumes "isSuccess (fst (connectToWiFi_prepare w cfg))"
    and "maxRetries cfg = 3"
    and "\<forall>i < 3. \<not> isSuccess (attempt_result cfg (radio (calls w + i)))"
    and "unat (ao_duration (radio (calls w))) + unat (ao_duration (radio (calls w + 1))) + 2000
           < unat (connectionTimeoutMs cfg)"
  shows "fst (connectToWiFi radio w cfg)
           = ACResult WIFI_CONNECT_FAILED ''Failed to connect after 3 attempts''
         \<and> calls (snd (connectToWiFi radio w cfg)) = calls w + 3"
proof -
  let ?T = "connectionTimeoutMs cfg"
  let ?t = "TimeoutHelper_new (clock w) ?T"
  let ?d0 = "ao_duration (radio (calls w))"
  let ?d1 = "ao_duration (radio (calls w + 1))"
  let ?d2 = "ao_duration (radio (calls w + 2))"
  let ?w0 = "snd (connectToWiFi_prepare w cfg)"
  let ?w1 = "?w0\<lparr>calls := calls w + 1, clock := clock w + (?d0 + 1000)\<rparr>"
  let ?w2 = "?w0\<lparr>calls := calls w + 2, clock := clock w + (?d0 + 1000 + ?d1 + 1000)\<rparr>"
  let ?w3 = "?w0\<lparr>calls := Suc (Suc (Suc (calls w))), clock := clock w + (?d0 + 1000 + ?d1 + 1000 + ?d2)\<rparr>"
  have f: "\<not> isSuccess (attempt_result cfg (radio (calls w)))"
    "\<not> isSuccess (attempt_result cfg (radio (calls w + 1)))"
    "\<not> isSuccess (attempt_result cfg (radio (calls w + 2)))"
    using assms(3) by (simp_all add: numeral_3_eq_3 less_Suc_eq)
  have T: "unat ?T < 2 ^ 32" using unsigned_less [of ?T, where ?'a = nat] by simp
  have u1: "unat (?d0 + 1000) = unat ?d0 + 1000"
    using assms(4) T by (simp add: unat_word_ariths)
  have u2: "unat (?d0 + 1000 + ?d1) = unat ?d0 + 1000 + unat ?d1"
    using assms(4) T u1 by (simp add: unat_word_ariths)
  have u3: "unat (?d0 + 1000 + ?d1 + 1000) = unat ?d0 + 1000 + unat ?d1 + 1000"
    using assms(4) T u2 by (simp add: unat_word_ariths)
  have e1: "?d0 + 1000 < ?T" using assms(4) u1 by (simp add: word_less_nat_alt)
  have e2: "?d0 + 1000 + ?d1 + 1000 < ?T" using assms(4) u3 by (simp add: word_less_nat_alt)
  have n0: "\<not> isExpired ?t (clock ?w0)"
    using prepare_timeout_range [OF assms(1)] by (simp add: prepare_keeps not_expired_at_start)
  have n1: "\<not> isExpired ?t (clock ?w1)" using not_expired_after [OF e1] by simp
  have n2: "\<not> isExpired ?t (clock ?w2)" using not_expired_after [OF e2] by simp
  have s0: "retry_loop radio cfg ?t 0 ?w0 = retry_loop radio cfg ?t 1 ?w1"
    using retry_loop_retry [of 0 cfg ?t ?w0 radio] n0 f assms(2)
    by (simp add: prepare_keeps add.assoc)
  have s1: "retry_loop radio cfg ?t 1 ?w1 = retry_loop radio cfg ?t 2 ?w2"
    using retry_loop_retry [of 1 cfg ?t ?w1 radio] n1 f assms(2)
    by (simp add: add.assoc)
  have s2: "retry_loop radio cfg ?t 2 ?w2 = retry_loop radio cfg ?t 3 ?w3"
    using retry_loop_retry [of 2 cfg ?t ?w2 radio] n2 f assms(2)
    by (simp add: add.assoc)
  have s3: "retry_loop radio cfg ?t 3 ?w3
              = (ACResult WIFI_CONNECT_FAILED
                   (''Failed to connect after '' @ decimal (unat (3 :: u8)) @ '' attempts''), ?w3)"
    using assms(2) by (intro retry_loop_exit) simp
  have "connectToWiFi radio w cfg
          = (ACResult WIFI_CONNECT_FAILED
               (''Failed to connect after '' @ decimal (unat (3 :: u8)) @ '' attempts''), ?w3)"
    using assms(1) s0 s1 s2 s3 by (simp add: connectToWiFi_unfold)
  then show ?thesis
    by (simp add: decimal.simps digit_char_def)
qed


text \<open>
  What \<^verbatim>\<open>beginWithResult\<close> makes of a failed connect call: a failure, unless the status
  has \<^verbatim>\<open>AC_CAPTIVEPORTAL\<close> set and \<^verbatim>\<open>AC_TIMEOUT\<close> clear, which it reports as success.
\<close>

lemma failed_capability_result:
  assumes "\<not> ao_began outc" and "ao_timeout outc \<or> \<not> ao_captive outc"
  shows "\<not> isSuccess (attempt_result cfg outc)"
  using assms by (auto simp add: attempt_result_def beginResult_def isSuccess_def)

lemma captive_capability_result:
  assumes "isSuccess (fst (connectToWiFi_prepare w cfg))"
    and "\<not> ao_began outc" and "ao_captive outc" and "\<not> ao_timeout outc"
    and "8192 \<le> ao_heap outc"
    and "NUL \<notin> set (nc_ssid cfg)" and "NUL \<notin> set (nc_password cfg)"
  shows "attempt_result cfg outc = ACResult SUCCESS ''Captive portal started''"
proof -
  have v: "isSuccess (nc_validate cfg)"
  proof (rule ccontr)
    assume "\<not> isSuccess (nc_validate cfg)"
    with assms(1) show False by (simp add: connectToWiFi_prepare_def Let_def)
  qed
  then have "isValidSSID (nc_ssid cfg)" and "isValidPassword (nc_password cfg)"
    by (auto simp add: nc_validate_def isSuccess_def split: if_splits)
  with assms(6,7) have "isSuccess (validateSSID (cstring (nc_ssid cfg)))"
    and "isSuccess (validatePassword (cstring (nc_password cfg)))"
    by (simp_all add: cstring_idem validateSSID_def validatePassword_def isSuccess_def)
  moreover have "\<not> connectionTimeoutMs cfg > 300000"
    using prepare_timeout_range(2) [OF assms(1)] by (simp add: not_less)
  ultimately show ?thesis
    using assms(2-5)
    by (simp add: attempt_result_def beginResult_def checkMemoryAvailable_def)
qed

text \<open>
  Claim C6, amended.  Take \<open>maxRetries = 3\<close> and a sequence that enters the retry loop.
  If the connect capability returns failure on each of the three attempts, no attempt
  leaves the status with \<^verbatim>\<open>AC_CAPTIVEPORTAL\<close> set and \<^verbatim>\<open>AC_TIMEOUT\<close> clear, and the budget
  has not run out when the third attempt starts (the first two attempts and the two
  pauses of 1000 ms take less than \<open>connectionTimeoutMs\<close>), then \<^verbatim>\<open>connectToWiFi\<close> makes
  three attempts and returns \<open>WIFI_CONNECT_FAILED\<close> with the message
  "Failed to connect after 3 attempts".  The exception: if the connect capability
  fails on the first attempt and leaves the status with \<^verbatim>\<open>AC_CAPTIVEPORTAL\<close> set and
  \<^verbatim>\<open>AC_TIMEOUT\<close> clear (with at least 8192 bytes of free heap and no NUL byte in SSID
  and password), \<^verbatim>\<open>connectToWiFi\<close> returns \<open>SUCCESS\<close> with the message
  "Captive portal started" after that one attempt.
\<close>

theorem C6_three_failures:
  assumes "isSuccess (fst (connectToWiFi_prepare w cfg))"
    and "maxRetries cfg = 3"
  shows "((\<forall>i < 3. \<not> ao_began (radio (calls w + i))
                    \<and> (ao_timeout (radio (calls w + i)) \<or> \<not> ao_captive (radio (calls w + i))))
          \<and> unat (ao_duration (radio (calls w))) + unat (ao_duration (radio (calls w + 1)))
               + 2000 < unat (connectionTimeoutMs cfg)
          \<longrightarrow> fst (connectToWiFi radio w cfg)
                = ACResult WIFI_CONNECT_FAILED ''Failed to connect after 3 attempts''
              \<and> calls (snd (connectToWiFi radio w cfg)) = calls w + 3)
         \<and> (\<not> ao_began (radio (calls w)) \<and> ao_captive (radio (calls w))
            \<and> \<not> ao_timeout (radio (calls w)) \<and> 8192 \<le> ao_heap (radio (calls w))
            \<and> NUL \<notin> set (nc_ssid cfg) \<and> NUL \<notin> set (nc_password cfg)
          \<longrightarrow> fst (connectToWiFi radio w cfg) = ACResult SUCCESS ''Captive portal started''
              \<and> calls (snd (connectToWiFi radio w cfg)) = calls w + 1)"
proof (rule conjI; rule impI)
  assume h: "(\<forall>i < 3. \<not> ao_began (radio (calls w + i))
                    \<and> (ao_timeout (radio (calls w + i)) \<or> \<not> ao_captive (radio (calls w + i))))
          \<and> unat (ao_duration (radio (calls w))) + unat (ao_duration (radio (calls w + 1)))
               + 2000 < unat (connectionTimeoutMs cfg)"
  then have "\<forall>i < 3. \<not> isSuccess (attempt_result cfg (radio (calls w + i)))"
    by (simp add: failed_capability_result)
  with h three_failing_results [OF assms, of radio]
  show "fst (connectToWiFi radio w cfg)
          = ACResult WIFI_CONNECT_FAILED ''Failed to connect after 3 attempts''
        \<and> calls (snd (connectToWiFi radio w cfg)) = calls w + 3"
    by blast
next
  let ?t = "TimeoutHelper_new (clock w) (connectionTimeoutMs cfg)"
  let ?w0 = "snd (connectToWiFi_prepare w cfg)"
  assume h: "\<not> ao_began (radio (calls w)) \<and> ao_captive (radio (calls w))
            \<and> \<not> ao_timeout (radio (calls w)) \<and> 8192 \<le> ao_heap (radio (calls w))
            \<and> NUL \<notin> set (nc_ssid cfg) \<and> NUL \<notin> set (nc_password cfg)"
  then have r: "attempt_result cfg (radio (calls w)) = ACResult SUCCESS ''Captive portal started''"
    using captive_capability_result [OF assms(1), of "radio (calls w)"] by simp
  have n0: "\<not> isExpired ?t (clock ?w0)"
    using prepare_timeout_range [OF assms(1)] by (simp add: prepare_keeps not_expired_at_start)
  have "retry_loop radio cfg ?t 0 ?w0
          = (attempt_result cfg (radio (calls ?w0)),
             ?w0\<lparr>calls := Suc (calls ?w0),
                  clock := clock ?w0 + ao_duration (radio (calls ?w0))\<rparr>)"
    using n0 r assms(2) by (intro retry_loop_success) (simp_all add: prepare_keeps isSuccess_def)
  with assms(1) r
  show "fst (connectToWiFi radio w cfg) = ACResult SUCCESS ''Captive portal started''
        \<and> calls (snd (connectToWiFi radio w cfg)) = calls w + 1"
    by (simp add: connectToWiFi_unfold prepare_keeps)
qed

subsection \<open>Runs on the fixture device\<close>

lemma home_prepare:
  "connectToWiFi_prepare home_world (home_config 10000 5) = (ACResult SUCCESS [], home_world)"
  "connectToWiFi_prepare home_world (home_config 30000 3) = (ACResult SUCCESS [], home_world)"
  by (simp_all add: connectToWiFi_prepare_def nc_validate_def home_config_def home_world_def
      NetworkConfig_new_def isValidSSID_def isValidPassword_def isSuccess_def
      checkMemoryAvailable_def Let_def)

lemma home_attempts:
  "attempt_result (home_config tmo r) outcome_timeout
     = (if tmo > 300000 then ACResult INVALID_PARAMETER ''Timeout too large (max 5 minutes)''
        else ACResult WIFI_TIMEOUT ''WiFi connection timeout'')"
  "attempt_result (home_config tmo r) outcome_refused
     = (if tmo > 300000 then ACResult INVALID_PARAMETER ''Timeout too large (max 5 minutes)''
        else ACResult WIFI_CONNECT_FAILED ''WiFi connection failed'')"
  "attempt_result (home_config tmo r) outcome_connected
     = (if tmo > 300000 then ACResult INVALID_PARAMETER ''Timeout too large (max 5 minutes)''
        else ACResult SUCCESS ''WiFi connection established'')"
  "attempt_result (home_config tmo r) outcome_captive
     = (if tmo > 300000 then ACResult INVALID_PARAMETER ''Timeout too large (max 5 minutes)''
        else ACResult SUCCESS ''Captive portal started'')"
  by (simp_all add: attempt_result_def beginResult_def home_config_def NetworkConfig_new_def
      outcome_timeout_def outcome_refused_def outcome_connected_def outcome_captive_def
      checkMemoryAvailable_def
      validateSSID_def validatePassword_def isValidSSID_def isValidPassword_def isSuccess_def
      cstring_def NUL_def)

lemma home_config_fields:
  "maxRetries (home_config tmo r) = r" "connectionTimeoutMs (home_config tmo r) = tmo"
  "nc_ssid (home_config tmo r) = ''home''"
  by (simp_all add: home_config_def NetworkConfig_new_def)

lemma home_world_fields:
  "clock home_world = 0" "calls home_world = 0"
  "store home_world = \<lparr>credentials = [mkCredential ''home'' ''password1'' 10],
               initialized = True, maxCredentials = 10\<rparr>"
  by (simp_all add: home_world_def)

lemma run_timeout:
  "connectToWiFi radio_timeout home_world (home_config 10000 5)
     = (ACResult WIFI_CONNECT_FAILED ''Failed to connect after 1 attempts'',
        home_world\<lparr>calls := 1, clock := 11000\<rparr>)"
proof -
  let ?cfg = "home_config 10000 5"
  let ?t = "TimeoutHelper_new 0 10000"
  have "connectToWiFi radio_timeout home_world ?cfg = retry_loop radio_timeout ?cfg ?t 0 home_world"
    by (simp add: connectToWiFi_unfold home_prepare isSuccess_def home_config_fields
        home_world_fields)
  also have "\<dots> = retry_loop radio_timeout ?cfg ?t 1 (home_world\<lparr>calls := 1, clock := 11000\<rparr>)"
    using retry_loop_retry [of 0 ?cfg ?t home_world radio_timeout]
    by (simp add: home_config_fields home_world_fields home_attempts radio_timeout_def
        isSuccess_def isExpired_def TimeoutHelper_new_def)
       (simp add: outcome_timeout_def)
  also have "\<dots> = (ACResult WIFI_CONNECT_FAILED ''Failed to connect after 1 attempts'',
                    home_world\<lparr>calls := 1, clock := 11000\<rparr>)"
    using retry_loop_exit [of 1 ?cfg ?t "home_world\<lparr>calls := 1, clock := 11000\<rparr>" radio_timeout]
    by (simp add: isExpired_def TimeoutHelper_new_def decimal.simps digit_char_def)
  finally show ?thesis .
qed

lemma run_second_connects:
  "connectToWiFi radio_second_connects home_world (home_config 30000 3)
     = (ACResult SUCCESS ''WiFi connection established'',
        home_world\<lparr>calls := 2, clock := 6000\<rparr>)"
proof -
  let ?cfg = "home_config 30000 3"
  let ?t = "TimeoutHelper_new 0 30000"
  let ?r = radio_second_connects
  have "connectToWiFi ?r home_world ?cfg = retry_loop ?r ?cfg ?t 0 home_world"
    by (simp add: connectToWiFi_unfold home_prepare isSuccess_def home_config_fields
        home_world_fields)
  also have "\<dots> = retry_loop ?r ?cfg ?t 1 (home_world\<lparr>calls := 1, clock := 3000\<rparr>)"
    using retry_loop_retry [of 0 ?cfg ?t home_world ?r]
    by (simp add: home_config_fields home_world_fields home_attempts radio_second_connects_def
        isSuccess_def isExpired_def TimeoutHelper_new_def)
       (simp add: outcome_refused_def)
  also have "\<dots> = (ACResult SUCCESS ''WiFi connection established'',
                    home_world\<lparr>calls := 2, clock := 6000\<rparr>)"
    using retry_loop_success [of 1 ?cfg ?t "home_world\<lparr>calls := 1, clock := 3000\<rparr>" ?r]
    by (simp add: home_config_fields home_attempts radio_second_connects_def
        isSuccess_def isExpired_def TimeoutHelper_new_def)
       (simp add: outcome_connected_def)
  finally show ?thesis .
qed

text \<open>
  Claim C2 says that after a successful sequence the stored credential of the network
  has its \<open>connectionCount\<close> raised by one and its \<open>timestamp\<close> set to the current time.
  On the device \<open>home_world\<close>, with the second of three attempts connecting, the
  sequence succeeds at time 6000 and the stored credential for ''home'' still has the
  count and the timestamp it had.
\<close>

theorem C2_counterexample:
  "connectToWiFi radio_second_connects home_world (home_config 30000 3)
     = (ACResult SUCCESS ''WiFi connection established'',
        home_world\<lparr>calls := 2, clock := 6000\<rparr>)
   \<and> ss_c_str (ssid (hd (credentials (store home_world)))) = nc_ssid (home_config 30000 3)
   \<and> connectionCount (hd (credentials (store (home_world\<lparr>calls := 2, clock := 6000\<rparr>))))
       \<noteq> connectionCount (hd (credentials (store home_world))) + 1
   \<and> timestamp (hd (credentials (store (home_world\<lparr>calls := 2, clock := 6000\<rparr>))))
       \<noteq> clock (home_world\<lparr>calls := 2, clock := 6000\<rparr>)"
  by (simp add: run_second_connects home_world_fields home_config_fields mkCredential_fields
      mkCredential_ssid cstring_def NUL_def)

text \<open>The same run: the second attempt succeeds, the result is a success, the store is as before.\<close>

theorem C2_success_store_untouched_witness:
  "isSuccess (attempt_result (home_config 30000 3) (radio_second_connects 1))
   \<and> isSuccess (fst (connectToWiFi radio_second_connects home_world (home_config 30000 3)))
   \<and> store (snd (connectToWiFi radio_second_connects home_world (home_config 30000 3)))
       = store home_world"
proof -
  have a: "isSuccess (attempt_result (home_config 30000 3) (radio_second_connects 1))"
    by (simp add: radio_second_connects_def home_attempts isSuccess_def)
  then have "\<exists>i. calls home_world \<le> i \<and> i < calls (home_world\<lparr>calls := 2, clock := 6000\<rparr>)
      \<and> isSuccess (attempt_result (home_config 30000 3) (radio_second_connects i))"
    by (intro exI [of _ 1]) (simp add: home_world_fields)
  from C2_success_store_untouched [OF run_second_connects this] a show ?thesis
    by (simp add: run_second_connects)
qed

text \<open>
  Claim C3 says that a sequence ended by the budget returns \<open>WIFI_TIMEOUT\<close>.  With
  \<open>maxRetries = 5\<close> and \<open>connectionTimeoutMs = 10000\<close>, the first attempt runs into the
  driver's timeout after 10000 ms (its own result is \<open>WIFI_TIMEOUT\<close>); after the pause
  the budget is used up with 1 of 5 attempts made, and the result is
  \<open>WIFI_CONNECT_FAILED\<close>.
\<close>

theorem C3_counterexample:
  "connectToWiFi radio_timeout home_world (home_config 10000 5)
     = (ACResult WIFI_CONNECT_FAILED ''Failed to connect after 1 attempts'',
        home_world\<lparr>calls := 1, clock := 11000\<rparr>)
   \<and> attempt_result (home_config 10000 5) (radio_timeout 0)
       = ACResult WIFI_TIMEOUT ''WiFi connection timeout''
   \<and> isExpired (TimeoutHelper_new (clock home_world) (connectionTimeoutMs (home_config 10000 5)))
        (clock (home_world\<lparr>calls := 1, clock := 11000\<rparr>))
   \<and> 1 < maxRetries (home_config 10000 5)
   \<and> WIFI_CONNECT_FAILED \<noteq> WIFI_TIMEOUT"
  by (simp add: run_timeout home_attempts radio_timeout_def home_config_fields home_world_fields
      isExpired_def TimeoutHelper_new_def)

text \<open>The run of the scenario, through the theorem.\<close>

theorem C3_failure_kind_witness:
  "isSuccess (fst (connectToWiFi_prepare home_world (home_config 10000 5)))
   \<and> \<not> isSuccess (fst (connectToWiFi radio_timeout home_world (home_config 10000 5)))
   \<and> maxRetries (home_config 10000 5) = 5
   \<and> connectionTimeoutMs (home_config 10000 5) = 10000
   \<and> \<not> isSuccess (attempt_result (home_config 10000 5) (radio_timeout (calls home_world)))
   \<and> ao_duration (radio_timeout (calls home_world)) = 10000
   \<and> fst (connectToWiFi radio_timeout home_world (home_config 10000 5))
       = ACResult WIFI_CONNECT_FAILED ''Failed to connect after 1 attempts''
   \<and> calls (snd (connectToWiFi radio_timeout home_world (home_config 10000 5)))
       = calls home_world + 1"
proof -
  have p: "isSuccess (fst (connectToWiFi_prepare home_world (home_config 10000 5)))"
    by (simp add: home_prepare isSuccess_def)
  have a: "\<not> isSuccess (attempt_result (home_config 10000 5) (radio_timeout (calls home_world)))"
    "ao_duration (radio_timeout (calls home_world)) = 10000"
    by (simp_all add: radio_timeout_def home_attempts isSuccess_def)
       (simp add: outcome_timeout_def)
  from C3_failure_kind [OF run_timeout p] p a show ?thesis
    by (simp add: run_timeout home_config_fields isSuccess_def)
qed

lemma run_captive:
  "connectToWiFi radio_captive home_world (home_config 30000 3)
     = (ACResult SUCCESS ''Captive portal started'', home_world\<lparr>calls := 1, clock := 2000\<rparr>)"
proof -
  let ?cfg = "home_config 30000 3"
  let ?t = "TimeoutHelper_new 0 30000"
  have "connectToWiFi radio_captive home_world ?cfg = retry_loop radio_captive ?cfg ?t 0 home_world"
    by (simp add: connectToWiFi_unfold home_prepare isSuccess_def home_config_fields
        home_world_fields)
  also have "\<dots> = (ACResult SUCCESS ''Captive portal started'',
                    home_world\<lparr>calls := 1, clock := 2000\<rparr>)"
    using retry_loop_success [of 0 ?cfg ?t home_world radio_captive]
    by (simp add: home_config_fields home_world_fields home_attempts radio_captive_def
        isSuccess_def isExpired_def TimeoutHelper_new_def)
       (simp add: outcome_captive_def)
  finally show ?thesis .
qed

text \<open>
  Claim C6 says that with \<open>maxRetries = 3\<close>, every attempt failing and a budget large
  enough for three attempts the result is \<open>WIFI_CONNECT_FAILED\<close> with 3 attempts
  reported.  On the radio whose every connect call fails after 2000 ms with the
  captive-portal status, within a budget of 30000 ms, the result is \<open>SUCCESS\<close> after one
  call.
\<close>

theorem C6_counterexample:
  "maxRetries (home_config 30000 3) = 3
   \<and> \<not> ao_began (radio_captive 0) \<and> \<not> ao_began (radio_captive 1)
   \<and> \<not> ao_began (radio_captive 2)
   \<and> unat (ao_duration (radio_captive 0)) + unat (ao_duration (radio_captive 1))
       + unat (ao_duration (radio_captive 2)) + 2000
       < unat (connectionTimeoutMs (home_config 30000 3))
   \<and> connectToWiFi radio_captive home_world (home_config 30000 3)
       = (ACResult SUCCESS ''Captive portal started'', home_world\<lparr>calls := 1, clock := 2000\<rparr>)
   \<and> SUCCESS \<noteq> WIFI_CONNECT_FAILED"
  by (simp add: run_captive home_config_fields radio_captive_def outcome_captive_def)

text \<open>
  Three refused attempts of 2000 ms each within a budget of 30000 ms, and the
  captive-portal radio on its first attempt.
\<close>

theorem C6_three_failures_witness:
  "isSuccess (fst (connectToWiFi_prepare home_world (home_config 30000 3)))
   \<and> maxRetries (home_config 30000 3) = 3
   \<and> \<not> ao_began (radio_refusing (calls home_world))
   \<and> \<not> ao_captive (radio_refusing (calls home_world))
   \<and> \<not> ao_began (radio_refusing (calls home_world + 1))
   \<and> \<not> ao_captive (radio_refusing (calls home_world + 1))
   \<and> \<not> ao_began (radio_refusing (calls home_world + 2))
   \<and> \<not> ao_captive (radio_refusing (calls home_world + 2))
   \<and> unat (ao_duration (radio_refusing (calls home_world)))
       + unat (ao_duration (radio_refusing (calls home_world + 1))) + 2000
       < unat (connectionTimeoutMs (home_config 30000 3))
   \<and> fst (connectToWiFi radio_refusing home_world (home_config 30000 3))
       = ACResult WIFI_CONNECT_FAILED ''Failed to connect after 3 attempts''
   \<and> calls (snd (connectToWiFi radio_refusing home_world (home_config 30000 3)))
       = calls home_world + 3
   \<and> \<not> ao_began (radio_captive (calls home_world))
   \<and> ao_captive (radio_captive (calls home_world))
   \<and> \<not> ao_timeout (radio_captive (calls home_world))
   \<and> 8192 \<le> ao_heap (radio_captive (calls home_world))
   \<and> NUL \<notin> set (nc_ssid (home_config 30000 3))
   \<and> NUL \<notin> set (nc_password (home_config 30000 3))
   \<and> fst (connectToWiFi radio_captive home_world (home_config 30000 3))
       = ACResult SUCCESS ''Captive portal started''
   \<and> calls (snd (connectToWiFi radio_captive home_world (home_config 30000 3)))
       = calls home_world + 1"
proof -
  have p: "isSuccess (fst (connectToWiFi_prepare home_world (home_config 30000 3)))"
    by (simp add: home_prepare isSuccess_def)
  have m: "maxRetries (home_config 30000 3) = 3" by (simp add: home_config_fields)
  have a: "\<not> ao_began (radio_refusing n)" "\<not> ao_captive (radio_refusing n)" for n
    by (simp_all add: radio_refusing_def outcome_refused_def)
  have b: "unat (ao_duration (radio_refusing (calls home_world)))
       + unat (ao_duration (radio_refusing (calls home_world + 1))) + 2000
       < unat (connectionTimeoutMs (home_config 30000 3))"
    by (simp add: radio_refusing_def outcome_refused_def home_config_fields)
  have c: "\<not> ao_began (radio_captive n)" "ao_captive (radio_captive n)"
    "\<not> ao_timeout (radio_captive n)" "8192 \<le> ao_heap (radio_captive n)" for n
    by (simp_all add: radio_captive_def outcome_captive_def)
  have z: "NUL \<notin> set (nc_ssid (home_config 30000 3))"
    "NUL \<notin> set (nc_password (home_config 30000 3))"
    by (simp_all add: home_config_def NetworkConfig_new_def NUL_def)
  from C6_three_failures [OF p m, of radio_refusing] C6_three_failures [OF p m, of radio_captive]
    p m a b c z
  show ?thesis by simp
qed

end
